theory Spec2Isabelle
  imports
    Complex_Main
    "HOL-Library.Char_ord"
    "HOL-Library.List_Lexorder"
    "HOL-Library.Product_Lexorder"
    "HOL-Library.Multiset"
begin

section \<open>Values, errors and data frames\<close>

text \<open>
  Calendar dates are day numbers (\<open>int\<close>); a missing date (pandas \<open>NaT\<close>) is \<open>None\<close>.
  ANC values are pandas floats; they are modelled as exact rationals, a missing value
  (\<open>NaN\<close>) is \<open>None\<close>. Comparisons of ANC values with the integer thresholds of the
  source are exact on floats, so they agree with the comparisons on rationals.
\<close>

datatype error = KeyError | ValueError | IndexError

text \<open>
  A pandas data frame is its list of rows together with the information whether it has
  any column at all. \<open>pd.DataFrame(records)\<close> takes its columns from the keys of the
  records, so \<open>pd.DataFrame([])\<close> has no column, and reading a column of it by name
  (\<open>df['patient_id']\<close>) raises \<open>KeyError\<close>. A frame obtained by filtering or grouping
  keeps its columns when no row is left.
\<close>

datatype 'a frame = Frame (has_columns: bool) (rows: "'a list")

definition DataFrame :: "'a list \<Rightarrow> 'a frame" where
  "DataFrame records = Frame (records \<noteq> []) records"

definition getitem :: "'a frame \<Rightarrow> error + 'a list" where
  "getitem df = (if has_columns df then Inr (rows df) else Inl KeyError)"

text \<open>\<open>Series.unique()\<close>: the distinct values in order of first appearance.\<close>

fun unique :: "'a list \<Rightarrow> 'a list" where
  "unique [] = []"
| "unique (x # xs) = x # unique (filter (\<lambda>y. y \<noteq> x) xs)"

text \<open>\<open>x in range(a, b)\<close> for a number \<open>x\<close>: \<open>x\<close> equals one of the integers \<open>a, ..., b - 1\<close>.\<close>

definition in_range :: "rat \<Rightarrow> int \<Rightarrow> int \<Rightarrow> bool" where
  "in_range x a b = (of_int \<lfloor>x\<rfloor> = x \<and> a \<le> \<lfloor>x\<rfloor> \<and> \<lfloor>x\<rfloor> < b)"

section \<open>The early-window series (rows of \<open>df_early\<close>)\<close>

text \<open>
  The fields of a row are the columns of its frame. Where a column name occurs in several
  frames, a prefix tells the frames apart (\<open>e_\<close> early series, \<open>l_\<close> late series,
  \<open>r_\<close> input rows, \<open>er_\<close> and \<open>lr_\<close> early and late results). \<open>day_row\<close> is a row of
  the early frame before the interpolation, \<open>early_row\<close> one after it.
\<close>

record day_row =
  e_patient_id :: string
  time_post_inf :: int
  e_cart_date :: int
  e_date :: int
  e_anc :: "rat option"
  e_last_fu_date :: "int option"

record early_row = day_row +
  anc_interpolated :: "int option"
  anc_final :: "rat option"

section \<open>icaht_grader.py: class ICahtGrader\<close>

record ICahtGrader =
  anc_500_threshold :: int
  anc_100_threshold :: int
  recovery_days :: int

definition ICahtGrader_init :: ICahtGrader where
  "ICahtGrader_init = \<lparr>anc_500_threshold = 501, anc_100_threshold = 101, recovery_days = 3\<rparr>"

record exceedance =
  start_day :: int
  start_date :: int
  end_day :: int
  end_date :: int
  duration :: int

subsection \<open>\<open>_join_adjacent_exceedances\<close>\<close>

text \<open>
  The loop over \<open>exceedances[1:]\<close> with the running \<open>current_exceedance\<close>; the list
  \<open>joined_exceedances\<close> is returned in the order in which the loop appends to it.
\<close>

fun join_loop :: "int \<Rightarrow> exceedance \<Rightarrow> exceedance list \<Rightarrow> exceedance list" where
  "join_loop rd current_exceedance [] = [current_exceedance]"
| "join_loop rd current_exceedance (next_exceedance # rest) =
     (let gap_days = start_day next_exceedance - end_day current_exceedance - 1 in
      if gap_days \<le> rd - 1 then
        join_loop rd
          (current_exceedance\<lparr>end_day := end_day next_exceedance,
             end_date := end_date next_exceedance,
             duration := end_day next_exceedance - start_day current_exceedance + 1\<rparr>)
          rest
      else current_exceedance # join_loop rd next_exceedance rest)"

definition join_adjacent_exceedances :: "ICahtGrader \<Rightarrow> exceedance list \<Rightarrow> exceedance list" where
  "join_adjacent_exceedances self exceedances =
     (case exceedances of
        [] \<Rightarrow> exceedances
      | [e] \<Rightarrow> exceedances
      | e # rest \<Rightarrow> join_loop (recovery_days self) e rest)"

text \<open>
  The merge pass in the words of the specification (section 4.3), to compare the code
  with: the intervals are walked in day order as one left-to-right fold over the list of
  merged intervals built so far; the gap between two intervals is the number of good days
  separating them; the next interval is joined into the last merged one when the gap is
  strictly less than the threshold, and merging sets the combined end day and the
  recomputed duration.
\<close>

definition gap_between :: "exceedance \<Rightarrow> exceedance \<Rightarrow> int" where
  "gap_between a b = start_day b - end_day a - 1"

definition merge_step_spec :: "int \<Rightarrow> exceedance list \<Rightarrow> exceedance \<Rightarrow> exceedance list" where
  "merge_step_spec threshold merged e =
     (if merged = [] then [e]
      else
        (let current = last merged in
         if gap_between current e < threshold then
           butlast merged @
             [current\<lparr>end_day := end_day e, end_date := end_date e,
                duration := end_day e - start_day current + 1\<rparr>]
         else merged @ [e]))"

definition merge_pass_spec :: "int \<Rightarrow> exceedance list \<Rightarrow> exceedance list" where
  "merge_pass_spec threshold exs = foldl (merge_step_spec threshold) [] exs"

subsection \<open>\<open>_calculate_exceedances\<close> (called with \<open>below=True\<close> only)\<close>

definition condition :: "int \<Rightarrow> early_row \<Rightarrow> bool" where
  "condition threshold row =
     (case anc_final row of None \<Rightarrow> False | Some v \<Rightarrow> v < of_int threshold)"

definition dropna_anc_final :: "early_row list \<Rightarrow> early_row list" where
  "dropna_anc_final patient_data = filter (\<lambda>row. anc_final row \<noteq> None) patient_data"

text \<open>
  The scan over \<open>valid_data.iterrows()\<close>. The state is \<open>current_exceedance\<close>, which is
  \<open>Some\<close> exactly when the flag \<open>in_exceedance\<close> of the source is set; the result is the
  list \<open>exceedances\<close> in the order of the appends, closed by the interval still open at
  the end of the data.
\<close>

fun scan_exceedances :: "int \<Rightarrow> early_row list \<Rightarrow> exceedance option \<Rightarrow> exceedance list" where
  "scan_exceedances threshold [] current_exceedance =
     (case current_exceedance of None \<Rightarrow> [] | Some c \<Rightarrow> [c])"
| "scan_exceedances threshold (row # valid_data) current_exceedance =
     (if condition threshold row then
        (case current_exceedance of
           None \<Rightarrow>
             scan_exceedances threshold valid_data
               (Some \<lparr>start_day = time_post_inf row, start_date = e_date row,
                      end_day = time_post_inf row, end_date = e_date row, duration = 1\<rparr>)
         | Some c \<Rightarrow>
             scan_exceedances threshold valid_data
               (Some (c\<lparr>end_day := time_post_inf row, end_date := e_date row,
                        duration := time_post_inf row - start_day c + 1\<rparr>)))
      else
        (case current_exceedance of
           None \<Rightarrow> scan_exceedances threshold valid_data None
         | Some c \<Rightarrow> c # scan_exceedances threshold valid_data None))"

definition calculate_exceedances :: "ICahtGrader \<Rightarrow> early_row list \<Rightarrow> int \<Rightarrow> exceedance list" where
  "calculate_exceedances self patient_data threshold =
     (let valid_data = dropna_anc_final patient_data in
      if valid_data = [] then []
      else join_adjacent_exceedances self (scan_exceedances threshold valid_data None))"

subsection \<open>\<open>_check_grade_4_special_cases\<close> and \<open>_assign_early_grade\<close>\<close>

text \<open>\<open>.iloc[-1]\<close> raises \<open>IndexError\<close> on a frame without rows.\<close>

definition check_grade_4_special_cases :: "early_row list \<Rightarrow> exceedance list \<Rightarrow> error + bool" where
  "check_grade_4_special_cases patient_data exceedances_500 =
     (if exceedances_500 = [] then Inr False
      else
        (case dropna_anc_final patient_data of
           [] \<Rightarrow> Inl IndexError
         | v # vs \<Rightarrow>
             (let last_day = time_post_inf (last (v # vs)) in
              Inr (list_ex (\<lambda>e. start_day e \<le> 3 \<and> end_day e = last_day) exceedances_500))))"

definition assign_early_grade :: "int \<Rightarrow> int \<Rightarrow> bool \<Rightarrow> string" where
  "assign_early_grade duration_500 duration_100 grade_4_special =
     (if grade_4_special then ''Grade 4''
      else if duration_500 = 0 \<and> duration_100 = 0 then ''Grade 0''
      else if (1 \<le> duration_500 \<and> duration_500 < 7) \<and> duration_100 < 7 then ''Grade 1''
      else if (7 \<le> duration_500 \<and> duration_500 < 14) \<and> duration_100 < 7 then ''Grade 2''
      else if ((14 \<le> duration_500 \<and> duration_500 < 31) \<and> duration_100 < 7) \<or>
              (duration_500 < 31 \<and> (7 \<le> duration_100 \<and> duration_100 < 14)) then ''Grade 3''
      else if duration_500 \<ge> 31 \<or> duration_100 \<ge> 14 then ''Grade 4''
      else ''Grade 0'')"

subsection \<open>\<open>grade_early_icaht\<close>\<close>

record early_result =
  er_patient_id :: string
  er_duration_below_500_max :: int
  er_duration_below_100_max :: int
  er_early_icaht_grade :: string
  er_grade_4_special :: bool
  exceedances_500 :: nat
  exceedances_100 :: nat

text \<open>\<open>max(values, default=0)\<close>.\<close>

definition max_default_0 :: "int list \<Rightarrow> int" where
  "max_default_0 values = (case values of [] \<Rightarrow> 0 | v # vs \<Rightarrow> fold max vs v)"

text \<open>One pass of the loop body for \<open>patient_id\<close>.\<close>

definition grade_early_patient :: "ICahtGrader \<Rightarrow> early_row list \<Rightarrow> string \<Rightarrow> error + early_result" where
  "grade_early_patient self df_rows pid =
     (let patient_data = sort_key time_post_inf (filter (\<lambda>row. e_patient_id row = pid) df_rows);
          exs_500 = calculate_exceedances self patient_data (anc_500_threshold self);
          exs_100 = calculate_exceedances self patient_data (anc_100_threshold self);
          max_duration_500 = max_default_0 (map duration exs_500);
          max_duration_100 = max_default_0 (map duration exs_100)
      in case check_grade_4_special_cases patient_data exs_500 of
           Inl err \<Rightarrow> Inl err
         | Inr grade_4_special \<Rightarrow>
             Inr \<lparr>er_patient_id = pid,
                  er_duration_below_500_max = max_duration_500,
                  er_duration_below_100_max = max_duration_100,
                  er_early_icaht_grade =
                    assign_early_grade max_duration_500 max_duration_100 grade_4_special,
                  er_grade_4_special = grade_4_special,
                  exceedances_500 = length exs_500,
                  exceedances_100 = length exs_100\<rparr>)"

text \<open>A loop whose body may raise: the first error ends it.\<close>

fun for_each :: "('a \<Rightarrow> error + 'b) \<Rightarrow> 'a list \<Rightarrow> error + 'b list" where
  "for_each body [] = Inr []"
| "for_each body (x # xs) =
     (case body x of
        Inl err \<Rightarrow> Inl err
      | Inr y \<Rightarrow> (case for_each body xs of Inl err \<Rightarrow> Inl err | Inr ys \<Rightarrow> Inr (y # ys)))"

definition grade_early_icaht :: "ICahtGrader \<Rightarrow> early_row frame \<Rightarrow> error + early_result frame" where
  "grade_early_icaht self df_early =
     (case getitem df_early of
        Inl err \<Rightarrow> Inl err
      | Inr df_rows \<Rightarrow>
          (case for_each (grade_early_patient self df_rows) (unique (map e_patient_id df_rows)) of
             Inl err \<Rightarrow> Inl err
           | Inr results \<Rightarrow> Inr (DataFrame results)))"

subsection \<open>\<open>_assign_late_grade\<close> and \<open>grade_late_icaht\<close>\<close>

definition assign_late_grade :: "rat option \<Rightarrow> rat option \<Rightarrow> string" where
  "assign_late_grade anc_1 anc_2 =
     (case anc_1 of
        None \<Rightarrow> ''Grade 0''
      | Some a1 \<Rightarrow>
          (let isna_anc_2 = (anc_2 = None);
               anc_2_le_1500 = (case anc_2 of None \<Rightarrow> False | Some a2 \<Rightarrow> a2 \<le> 1500)
           in
           if (in_range a1 1001 1501 \<and> (isna_anc_2 \<or> anc_2_le_1500)) \<or>
              (in_range a1 1001 1501 \<and> isna_anc_2) then ''Grade 1''
           else if (in_range a1 501 1001 \<and> (isna_anc_2 \<or> anc_2_le_1500)) \<or>
                   (in_range a1 501 1001 \<and> isna_anc_2) then ''Grade 2''
           else if (in_range a1 101 501 \<and> (isna_anc_2 \<or> anc_2_le_1500)) \<or>
                   (in_range a1 101 501 \<and> isna_anc_2) then ''Grade 3''
           else if a1 \<le> 100 then ''Grade 4''
           else ''Grade 0''))"

text \<open>Rows of \<open>df_late\<close>, the frame that \<open>_prepare_late_data\<close> returns.\<close>

record late_row =
  l_patient_id :: string
  l_time_post_inf :: int
  l_cart_date :: int
  l_date :: int
  l_anc :: "rat option"
  l_end_date :: int

text \<open>
  The records of \<open>grade_late_icaht\<close>. The record of a patient without rows has no key
  \<open>anc_count\<close>, which the frame shows as a missing value.
\<close>

record late_result =
  lr_patient_id :: string
  lr_anc_1 :: "rat option"
  lr_anc_2 :: "rat option"
  lr_late_icaht_grade :: string
  lr_anc_count :: "nat option"

definition grade_late_patient :: "late_row list \<Rightarrow> string \<Rightarrow> late_result" where
  "grade_late_patient df_rows pid =
     (let patient_data = filter (\<lambda>row. l_patient_id row = pid) df_rows in
      if patient_data = [] then
        \<lparr>lr_patient_id = pid, lr_anc_1 = None, lr_anc_2 = None,
         lr_late_icaht_grade = ''Grade 0'', lr_anc_count = None\<rparr>
      else
        (let anc_values = sort (List.map_filter l_anc patient_data);
             anc_1 = (case anc_values of [] \<Rightarrow> None | a # _ \<Rightarrow> Some a);
             anc_2 = (case anc_values of a # b # _ \<Rightarrow> Some b | _ \<Rightarrow> None)
         in \<lparr>lr_patient_id = pid, lr_anc_1 = anc_1, lr_anc_2 = anc_2,
             lr_late_icaht_grade = assign_late_grade anc_1 anc_2,
             lr_anc_count = Some (length anc_values)\<rparr>))"

definition grade_late_icaht :: "late_row frame \<Rightarrow> error + late_result frame" where
  "grade_late_icaht df_late =
     (case getitem df_late of
        Inl err \<Rightarrow> Inl err
      | Inr df_rows \<Rightarrow>
          Inr (DataFrame (map (grade_late_patient df_rows) (unique (map l_patient_id df_rows)))))"

subsection \<open>\<open>combine_grades\<close>\<close>

record combined_result =
  patient_id :: string
  early_icaht_grade :: string
  duration_below_500_max :: int
  duration_below_100_max :: int
  grade_4_special :: bool
  late_icaht_grade :: string
  anc_1 :: "rat option"
  anc_2 :: "rat option"
  anc_count :: "nat option"

definition combine_patient :: "early_result list \<Rightarrow> late_result list \<Rightarrow> string \<Rightarrow> combined_result" where
  "combine_patient early_rows late_rows pid =
     (let early_data = filter (\<lambda>row. er_patient_id row = pid) early_rows;
          late_data = filter (\<lambda>row. lr_patient_id row = pid) late_rows;
          (grade_e, d500, d100, special) =
            (case early_data of
               early_row # _ \<Rightarrow>
                 (er_early_icaht_grade early_row, er_duration_below_500_max early_row,
                  er_duration_below_100_max early_row, er_grade_4_special early_row)
             | [] \<Rightarrow> (''Grade 0'', 0, 0, False));
          (grade_l, a1, a2, cnt) =
            (case late_data of
               late_row # _ \<Rightarrow>
                 (lr_late_icaht_grade late_row, lr_anc_1 late_row, lr_anc_2 late_row,
                  lr_anc_count late_row)
             | [] \<Rightarrow> (''Grade 0'', None, None, Some 0))
      in \<lparr>patient_id = pid, early_icaht_grade = grade_e, duration_below_500_max = d500,
          duration_below_100_max = d100, grade_4_special = special,
          late_icaht_grade = grade_l, anc_1 = a1, anc_2 = a2, anc_count = cnt\<rparr>)"

text \<open>
  \<open>all_patients\<close> is a Python \<open>set\<close>, and the loop runs over it in the set's iteration
  order, which the language does not fix (for strings it follows the hash seed of the
  interpreter). The parameter \<open>set_order\<close> stands for it: it maps the list the set is
  built from to the sequence in which the loop visits the set. Both column reads happen
  before the set is built.
\<close>

definition combine_grades ::
  "(string list \<Rightarrow> string list) \<Rightarrow> early_result frame \<Rightarrow> late_result frame
    \<Rightarrow> error + combined_result frame" where
  "combine_grades set_order early_grades late_grades =
     (case getitem early_grades of
        Inl err \<Rightarrow> Inl err
      | Inr early_rows \<Rightarrow>
          (case getitem late_grades of
             Inl err \<Rightarrow> Inl err
           | Inr late_rows \<Rightarrow>
               (let all_patients =
                      set_order (map er_patient_id early_rows @ map lr_patient_id late_rows)
                in Inr (DataFrame (map (combine_patient early_rows late_rows) all_patients)))))"

section \<open>data_processor.py: class DataProcessor\<close>

text \<open>
  The rows of the input frame \<open>df\<close> after the conversions at the head of
  \<open>prepare_data\<close>; the frame has the seven required columns. \<open>settings\<close> is a
  dictionary, read with \<open>settings.get(key, default)\<close>.
\<close>

record raw_observation =
  r_patient_id :: string
  cart_date :: "int option"
  date :: "int option"
  anc :: "rat option"
  last_fu_date :: "int option"
  subsequent_therapy_date :: "int option"
  progression_date :: "int option"

type_synonym settings = "string \<Rightarrow> int option"

definition settings_get :: "settings \<Rightarrow> string \<Rightarrow> int \<Rightarrow> int" where
  "settings_get s key dflt = (case s key of None \<Rightarrow> dflt | Some v \<Rightarrow> v)"

text \<open>The aggregations \<open>'first'\<close> and \<open>'min'\<close> of a group: both skip missing values.\<close>

definition first_notna :: "'a option list \<Rightarrow> 'a option" where
  "first_notna vs = (case List.map_filter id vs of [] \<Rightarrow> None | v # _ \<Rightarrow> Some v)"

definition min_notna :: "('a::linorder) option list \<Rightarrow> 'a option" where
  "min_notna vs = (case List.map_filter id vs of [] \<Rightarrow> None | v # rest \<Rightarrow> Some (fold min rest v))"

text \<open>The keys of \<open>groupby\<close>: the distinct keys in ascending order.\<close>

definition group_keys :: "('a \<Rightarrow> 'k::linorder) \<Rightarrow> 'a list \<Rightarrow> 'k list" where
  "group_keys key rs = sort (remdups (map key rs))"

subsection \<open>\<open>_prepare_early_data\<close>: filter and grouping\<close>

text \<open>
  \<open>time_post_inf = (date - cart_date).dt.days\<close> is missing when either date is, and a
  comparison with a missing value is false, so the filter keeps the rows below. They
  are given with their day offset and their (present) dates.
\<close>

definition early_filter :: "int \<Rightarrow> raw_observation list \<Rightarrow> day_row list" where
  "early_filter max_days df =
     List.map_filter
       (\<lambda>r. case (date r, cart_date r) of
               (Some d, Some c) \<Rightarrow>
                 if d - c \<ge> 0 \<and> d - c \<le> max_days then
                   Some \<lparr>e_patient_id = r_patient_id r, time_post_inf = d - c, e_cart_date = c,
                         e_date = d, e_anc = anc r, e_last_fu_date = last_fu_date r\<rparr>
                 else None
             | _ \<Rightarrow> None)
       df"

definition groupby_early :: "day_row list \<Rightarrow> day_row list" where
  "groupby_early rs =
     List.map_filter
       (\<lambda>(pid, day).
          case filter (\<lambda>r. e_patient_id r = pid \<and> time_post_inf r = day) rs of
            [] \<Rightarrow> None
          | g # gs \<Rightarrow>
              Some \<lparr>e_patient_id = pid, time_post_inf = day, e_cart_date = e_cart_date g,
                    e_date = e_date g, e_anc = min_notna (map e_anc (g # gs)),
                    e_last_fu_date = first_notna (map e_last_fu_date (g # gs))\<rparr>)
       (group_keys (\<lambda>r. (e_patient_id r, time_post_inf r)) rs)"

subsection \<open>\<open>_create_complete_timeseries\<close>\<close>

definition complete_patient :: "int \<Rightarrow> day_row list \<Rightarrow> string \<Rightarrow> error + day_row list" where
  "complete_patient max_days df pid =
     (case filter (\<lambda>r. e_patient_id r = pid) df of
        [] \<Rightarrow> Inl IndexError
      | p # ps \<Rightarrow>
          (let cart = e_cart_date p;
               last_fu = e_last_fu_date p;
               follow_up_days =
                 (case last_fu of None \<Rightarrow> max_days | Some f \<Rightarrow> min max_days (f - cart))
           in Inr (map (\<lambda>day.
                     case filter (\<lambda>r. time_post_inf r = day) (p # ps) of
                       day_data # _ \<Rightarrow> day_data
                     | [] \<Rightarrow>
                         \<lparr>e_patient_id = pid, time_post_inf = day, e_cart_date = cart,
                          e_date = cart + day, e_anc = None, e_last_fu_date = last_fu\<rparr>)
                   [0..follow_up_days])))"

definition create_complete_timeseries :: "day_row list \<Rightarrow> int \<Rightarrow> error + day_row frame" where
  "create_complete_timeseries df max_days =
     (case for_each (complete_patient max_days df) (unique (map e_patient_id df)) of
        Inl err \<Rightarrow> Inl err
      | Inr complete_data \<Rightarrow> Inr (DataFrame (concat complete_data)))"

subsection \<open>\<open>_interpolate_anc_values\<close>\<close>

text \<open>
  \<open>Series.interpolate(method='linear', limit=L, limit_direction='both')\<close> on a float
  series works on the positions \<open>0, 1, ...\<close> of the series. A limit below 1 raises
  \<open>ValueError\<close>. A series without a known value, or without a missing one, is returned
  as it is. Otherwise every missing position gets the value of \<open>numpy.interp\<close> over the
  known points (linear between two known points, and the value of the nearest known
  point before the first and after the last one), except for the positions pandas keeps
  missing: with \<open>limit_direction='both'\<close> these are the missing positions \<open>x\<close> with no
  known value among the positions \<open>max(0, x - L), ..., x + L\<close>.
\<close>

definition window_all_nan :: "nat \<Rightarrow> 'a option list \<Rightarrow> nat \<Rightarrow> bool" where
  "window_all_nan L ys x =
     list_all (\<lambda>y. y = None) (take (x + L + 1 - (x - L)) (drop (x - L) ys))"

definition valid_points :: "rat option list \<Rightarrow> (nat \<times> rat) list" where
  "valid_points ys = List.map_filter (\<lambda>(i, y). map_option (Pair i) y) (enumerate 0 ys)"

text \<open>\<open>numpy.interp(x, xp, fp)\<close> for increasing sample positions; it is called with at least one sample.\<close>

fun np_interp :: "(nat \<times> rat) list \<Rightarrow> nat \<Rightarrow> rat" where
  "np_interp [] x = 0"
| "np_interp [(x0, y0)] x = y0"
| "np_interp ((x0, y0) # (x1, y1) # ps) x =
     (if x \<le> x0 then y0
      else if x < x1 then (y1 - y0) / of_nat (x1 - x0) * of_nat (x - x0) + y0
      else np_interp ((x1, y1) # ps) x)"

definition series_interpolate :: "int \<Rightarrow> rat option list \<Rightarrow> error + rat option list" where
  "series_interpolate limit ys =
     (if limit < 1 then Inl ValueError
      else if list_all (\<lambda>y. y = None) ys then Inr ys
      else if list_all (\<lambda>y. y \<noteq> None) ys then Inr ys
      else Inr (map (\<lambda>(x, y).
                  case y of
                    Some v \<Rightarrow> Some v
                  | None \<Rightarrow>
                      if window_all_nan (nat limit) ys x then None
                      else Some (np_interp (valid_points ys) x))
                (enumerate 0 ys)))"

text \<open>
  \<open>round(-1)\<close> rounds to the nearest multiple of ten, a tie going to the even multiple;
  \<open>astype('Int64')\<close> makes the result a nullable integer.
\<close>

definition rint :: "rat \<Rightarrow> int" where
  "rint x =
     (let f = \<lfloor>x\<rfloor>; d = x - of_int f in
      if d < 1 / 2 then f else if d > 1 / 2 then f + 1 else if even f then f else f + 1)"

definition round_to_10 :: "rat \<Rightarrow> int" where
  "round_to_10 v = rint (v / 10) * 10"

definition interpolate_patient :: "int \<Rightarrow> day_row list \<Rightarrow> string \<Rightarrow> error + early_row list" where
  "interpolate_patient max_gap df pid =
     (let patient_data = sort_key time_post_inf (filter (\<lambda>r. e_patient_id r = pid) df) in
      case series_interpolate max_gap (map e_anc patient_data) of
        Inl err \<Rightarrow> Inl err
      | Inr interpolated \<Rightarrow>
          Inr (map (\<lambda>(r, v).
                 (let rounded = map_option round_to_10 v in
                  \<lparr>e_patient_id = e_patient_id r, time_post_inf = time_post_inf r,
                   e_cart_date = e_cart_date r, e_date = e_date r, e_anc = e_anc r,
                   e_last_fu_date = e_last_fu_date r,
                   anc_interpolated = rounded,
                   anc_final = (case e_anc r of
                                  Some a \<Rightarrow> Some a
                                | None \<Rightarrow> map_option of_int rounded)\<rparr>))
               (zip patient_data interpolated)))"

text \<open>\<open>pd.concat\<close> raises \<open>ValueError\<close> on an empty list of frames.\<close>

definition interpolate_anc_values :: "day_row frame \<Rightarrow> settings \<Rightarrow> error + early_row frame" where
  "interpolate_anc_values df s =
     (let max_gap = settings_get s ''max_gap_days'' 7 in
      case getitem df of
        Inl err \<Rightarrow> Inl err
      | Inr df_rows \<Rightarrow>
          (case for_each (interpolate_patient max_gap df_rows) (unique (map e_patient_id df_rows)) of
             Inl err \<Rightarrow> Inl err
           | Inr interpolated_data \<Rightarrow>
               if interpolated_data = [] then Inl ValueError
               else Inr (Frame True (concat interpolated_data))))"

definition prepare_early_data :: "raw_observation list \<Rightarrow> settings \<Rightarrow> error + early_row frame" where
  "prepare_early_data df s =
     (let max_days = settings_get s ''early_days'' 30 in
      case create_complete_timeseries (groupby_early (early_filter max_days df)) max_days of
        Inl err \<Rightarrow> Inl err
      | Inr df_early \<Rightarrow> interpolate_anc_values df_early s)"

subsection \<open>\<open>_prepare_late_data\<close>\<close>

text \<open>
  \<open>end_date\<close> is the row-wise minimum (missing values skipped) of the four columns
  \<open>cart_date\<close>, \<open>subsequent_therapy_date\<close>, \<open>progression_date\<close> and \<open>last_fu_date\<close>,
  and where that is missing, \<open>cart_date + timedelta(days=100)\<close>.
\<close>

definition late_end_date :: "raw_observation \<Rightarrow> int option" where
  "late_end_date r =
     (case min_notna [cart_date r, subsequent_therapy_date r, progression_date r, last_fu_date r] of
        None \<Rightarrow> map_option (\<lambda>c. c + 100) (cart_date r)
      | Some m \<Rightarrow> Some m)"

definition late_filter :: "raw_observation list \<Rightarrow> late_row list" where
  "late_filter df =
     List.map_filter
       (\<lambda>r. case (date r, cart_date r, late_end_date r) of
               (Some d, Some c, Some e) \<Rightarrow>
                 if d - c \<ge> 31 \<and> d \<le> e then
                   Some \<lparr>l_patient_id = r_patient_id r, l_time_post_inf = d - c, l_cart_date = c,
                         l_date = d, l_anc = anc r, l_end_date = e\<rparr>
                 else None
             | _ \<Rightarrow> None)
       df"

definition groupby_late :: "late_row list \<Rightarrow> late_row list" where
  "groupby_late rs =
     List.map_filter
       (\<lambda>(pid, day).
          case filter (\<lambda>r. l_patient_id r = pid \<and> l_time_post_inf r = day) rs of
            [] \<Rightarrow> None
          | g # gs \<Rightarrow>
              Some \<lparr>l_patient_id = pid, l_time_post_inf = day, l_cart_date = l_cart_date g,
                    l_date = l_date g, l_anc = min_notna (map l_anc (g # gs)),
                    l_end_date = l_end_date g\<rparr>)
       (group_keys (\<lambda>r. (l_patient_id r, l_time_post_inf r)) rs)"

definition prepare_late_data :: "raw_observation list \<Rightarrow> settings \<Rightarrow> late_row frame" where
  "prepare_late_data df s = Frame True (groupby_late (late_filter df))"

subsection \<open>\<open>prepare_data\<close>\<close>

record processed_data =
  early :: "early_row frame"
  late :: "late_row frame"
  original :: "raw_observation list"

definition prepare_data :: "raw_observation list \<Rightarrow> settings \<Rightarrow> error + processed_data" where
  "prepare_data df s =
     (case prepare_early_data df s of
        Inl err \<Rightarrow> Inl err
      | Inr early_data \<Rightarrow>
          Inr \<lparr>early = early_data, late = prepare_late_data df s, original = df\<rparr>)"

section \<open>\<open>generate_summary\<close> and the processing route of app.py\<close>

record data_quality =
  patients_with_data :: nat
  interpolation_rate :: rat

record summary =
  total_patients :: nat
  early_icaht_distribution :: "string \<Rightarrow> nat option"
  late_icaht_distribution :: "string \<Rightarrow> nat option"
  grade_4_special_cases :: nat
  data_quality_early :: data_quality
  data_quality_late :: data_quality

text \<open>\<open>value_counts().to_dict()\<close>: the number of occurrences of every value that occurs.\<close>

definition value_counts :: "string list \<Rightarrow> string \<Rightarrow> nat option" where
  "value_counts vs g = (if g \<in> set vs then Some (count_list vs g) else None)"

text \<open>
  \<open>_assess_data_quality\<close> reads the column \<open>anc_final\<close> when the frame has rows; the late
  frame has no such column. \<open>round(x, 2)\<close> is taken on exact rationals.
\<close>

definition assess_data_quality_early :: "early_row frame \<Rightarrow> error + data_quality" where
  "assess_data_quality_early df =
     (if rows df = [] then Inr \<lparr>patients_with_data = 0, interpolation_rate = 0\<rparr>
      else
        (let total_values = length (rows df);
             interpolated_values = length (filter (\<lambda>r. anc_final r = None) (rows df));
             rate = of_nat interpolated_values / of_nat total_values
         in Inr \<lparr>patients_with_data = length (unique (map e_patient_id (rows df))),
                 interpolation_rate = of_int (rint (rate * 100 * 100)) / 100\<rparr>))"

definition assess_data_quality_late :: "late_row frame \<Rightarrow> error + data_quality" where
  "assess_data_quality_late df =
     (if rows df = [] then Inr \<lparr>patients_with_data = 0, interpolation_rate = 0\<rparr>
      else Inl KeyError)"

definition generate_summary :: "combined_result frame \<Rightarrow> processed_data \<Rightarrow> error + summary" where
  "generate_summary final_grades processed =
     (case getitem final_grades of
        Inl err \<Rightarrow> Inl err
      | Inr final_rows \<Rightarrow>
          (case assess_data_quality_early (early processed) of
             Inl err \<Rightarrow> Inl err
           | Inr early_data_quality \<Rightarrow>
               (case assess_data_quality_late (late processed) of
                  Inl err \<Rightarrow> Inl err
                | Inr late_data_quality \<Rightarrow>
                    Inr \<lparr>total_patients = length final_rows,
                         early_icaht_distribution = value_counts (map early_icaht_grade final_rows),
                         late_icaht_distribution = value_counts (map late_icaht_grade final_rows),
                         grade_4_special_cases = length (filter grade_4_special final_rows),
                         data_quality_early = early_data_quality,
                         data_quality_late = late_data_quality\<rparr>)))"

text \<open>
  The transform of the route \<open>process_icaht\<close>: \<open>prepare_data\<close>, the two graders of the
  global \<open>ICahtGrader()\<close>, \<open>combine_grades\<close> and \<open>generate_summary\<close>. An exception of any
  step ends the run.
\<close>

definition process_icaht ::
  "(string list \<Rightarrow> string list) \<Rightarrow> raw_observation list \<Rightarrow> settings
    \<Rightarrow> error + (combined_result frame \<times> summary)" where
  "process_icaht set_order df s =
     (case prepare_data df s of
        Inl err \<Rightarrow> Inl err
      | Inr processed \<Rightarrow>
          (case grade_early_icaht ICahtGrader_init (early processed) of
             Inl err \<Rightarrow> Inl err
           | Inr early_grades \<Rightarrow>
               (case grade_late_icaht (late processed) of
                  Inl err \<Rightarrow> Inl err
                | Inr late_grades \<Rightarrow>
                    (case combine_grades set_order early_grades late_grades of
                       Inl err \<Rightarrow> Inl err
                     | Inr final_grades \<Rightarrow>
                         (case generate_summary final_grades processed of
                            Inl err \<Rightarrow> Inl err
                          | Inr summ \<Rightarrow> Inr (final_grades, summ))))))"

section \<open>Example data\<close>

text \<open>
  A patient's early series with the given final ANC values on the days 0, 1, 2, ...; used
  to run the graders on concrete series.
\<close>

definition series_of :: "string \<Rightarrow> rat option list \<Rightarrow> early_row list" where
  "series_of pid vs =
     map (\<lambda>(day, v).
            \<lparr>e_patient_id = pid, time_post_inf = int day, e_cart_date = 0, e_date = int day,
             e_anc = v, e_last_fu_date = None, anc_interpolated = map_option round_to_10 v,
             anc_final = v\<rparr>)
         (enumerate 0 vs)"

text \<open>
  An observation of a patient infused on day 0, a patient's completed series with the given
  raw ANC values on the days 0, 1, 2, ..., and the column of final ANC values of a prepared
  early frame.
\<close>

definition observation :: "string \<Rightarrow> int \<Rightarrow> rat option \<Rightarrow> int option \<Rightarrow> raw_observation" where
  "observation pid day v fu =
     \<lparr>r_patient_id = pid, cart_date = Some 0, date = Some day, anc = v, last_fu_date = fu,
      subsequent_therapy_date = None, progression_date = None\<rparr>"

definition day_series_of :: "string \<Rightarrow> rat option list \<Rightarrow> day_row list" where
  "day_series_of pid vs =
     map (\<lambda>(day, v).
            \<lparr>e_patient_id = pid, time_post_inf = int day, e_cart_date = 0, e_date = int day,
             e_anc = v, e_last_fu_date = None\<rparr>)
         (enumerate 0 vs)"

definition final_anc_values :: "error + early_row frame \<Rightarrow> error + rat option list" where
  "final_anc_values res = (case res of Inl err \<Rightarrow> Inl err | Inr df \<Rightarrow> Inr (map anc_final (rows df)))"

section \<open>The late window is empty, and what follows from it\<close>

lemma fold_min_le: "fold min vs (v::'a::linorder) \<le> v"
proof (induction vs arbitrary: v)
  case Nil
  show ?case by simp
next
  case (Cons a vs)
  have "fold min vs (min a v) \<le> min a v" by (rule Cons.IH)
  then show ?case by (simp add: min_le_iff_disj)
qed

lemma min_notna_Some_le: "min_notna (Some c # vs) = Some m \<Longrightarrow> m \<le> c"
  by (auto simp add: min_notna_def fold_min_le)

lemma min_notna_Some_head: "\<exists>m. min_notna (Some c # vs) = Some m"
  by (simp add: min_notna_def)

lemma late_end_date_le_cart:
  assumes "cart_date r = Some c" and "late_end_date r = Some e"
  shows "e \<le> c"
proof -
  obtain m where m:
    "min_notna [cart_date r, subsequent_therapy_date r, progression_date r, last_fu_date r] = Some m"
    using min_notna_Some_head assms(1) by metis
  then have "m \<le> c" using min_notna_Some_le assms(1) by metis
  moreover have "e = m" using assms(2) m by (simp add: late_end_date_def)
  ultimately show ?thesis by simp
qed

lemma late_filter_empty: "late_filter df = []"
proof -
  have "\<And>r. (case (date r, cart_date r, late_end_date r) of
               (Some d, Some c, Some e) \<Rightarrow>
                 if d - c \<ge> 31 \<and> d \<le> e then
                   Some \<lparr>l_patient_id = r_patient_id r, l_time_post_inf = d - c, l_cart_date = c,
                         l_date = d, l_anc = anc r, l_end_date = e\<rparr>
                 else None
             | _ \<Rightarrow> None) = None"
    using late_end_date_le_cart by (fastforce split: option.splits)
  then show ?thesis
    unfolding late_filter_def List.map_filter_def by (simp add: filter_empty_conv)
qed

lemma prepare_late_data_empty: "prepare_late_data df s = Frame True []"
  by (simp add: prepare_late_data_def late_filter_empty groupby_late_def group_keys_def)

lemma grade_late_icaht_empty: "grade_late_icaht (Frame True []) = Inr (Frame False [])"
  by (simp add: grade_late_icaht_def getitem_def DataFrame_def)

lemma combine_grades_no_late:
  "combine_grades set_order early_grades (Frame False []) = Inl KeyError"
  by (simp add: combine_grades_def getitem_def split: sum.splits)

text \<open>
  Claim C1. The claim: the late-window end date is the earliest of the
  subsequent-therapy, progression and last-follow-up dates, baseline + 100 days when all
  three are absent, and the late series keeps the observed rows with day offset at least
  31 and observation date up to that end date. The code takes the minimum over the
  baseline date as well. For a patient infused on day 0, observed on day 40 with ANC 800
  and given subsequent therapy on day 60, the claimed end date is day 60 and the row of
  day 40 is kept; the code computes the end date day 0 and keeps no row.
\<close>

theorem late_end_date_includes_baseline:
  "late_end_date \<lparr>r_patient_id = ''P1'', cart_date = Some 0, date = Some 40, anc = Some 800,
      last_fu_date = None, subsequent_therapy_date = Some 60, progression_date = None\<rparr> = Some 0
   \<and> prepare_late_data
        [\<lparr>r_patient_id = ''P1'', cart_date = Some 0, date = Some 40, anc = Some 800,
          last_fu_date = None, subsequent_therapy_date = Some 60, progression_date = None\<rparr>] s
       = Frame True []"
  by (simp add: late_end_date_def min_notna_def prepare_late_data_def late_filter_def
      groupby_late_def group_keys_def)

text \<open>
  Claim C2. The claim: the prepared late-window data set is empty, and consequently every
  patient of the combined output has late grade 'Grade 0', absent anc_1 and anc_2 and an
  observation count of 0. The first half holds, for every batch. The second does not:
  \<open>grade_late_icaht\<close> builds its result with \<open>pd.DataFrame([])\<close>, a frame without columns,
  and \<open>combine_grades\<close> raises \<open>KeyError\<close> when it reads the column \<open>patient_id\<close> of it,
  before the branch that would fill in the defaults. No run of the transform reaches a
  combined output.
\<close>

theorem late_window_empty_and_combine_raises:
  "prepare_late_data df s = Frame True []
   \<and> grade_late_icaht (prepare_late_data df s) = Inr (Frame False [])
   \<and> combine_grades set_order early_grades (Frame False []) = Inl KeyError
   \<and> (\<exists>err. process_icaht set_order df s = Inl err)"
proof -
  have "\<exists>err. process_icaht set_order df s = Inl err"
    by (auto simp add: process_icaht_def prepare_data_def prepare_late_data_empty
        grade_late_icaht_empty combine_grades_no_late split: sum.splits)
  then show ?thesis
    by (simp add: prepare_late_data_empty grade_late_icaht_empty combine_grades_no_late)
qed

section \<open>Determinism of the transform\<close>






section \<open>The early grader\<close>

lemma set_unique: "set (unique xs) = set xs"
  by (induction xs rule: unique.induct) auto

lemma distinct_unique: "distinct (unique xs)"
  by (induction xs rule: unique.induct) (auto simp add: set_unique)

lemma filter_eq_distinct: "distinct xs \<Longrightarrow> x \<in> set xs \<Longrightarrow> filter (\<lambda>y. y = x) xs = [x]"
  by (induction xs) (auto simp add: filter_empty_conv)

lemma for_each_map:
  "(\<And>x. x \<in> set xs \<Longrightarrow> body x = Inr (g x)) \<Longrightarrow> for_each body xs = Inr (map g xs)"
  by (induction xs) auto

lemma calculate_exceedances_no_valid:
  "dropna_anc_final patient_data = [] \<Longrightarrow> calculate_exceedances self patient_data threshold = []"
  by (simp add: calculate_exceedances_def)

lemma check_grade_4_total:
  "\<exists>b. check_grade_4_special_cases patient_data
          (calculate_exceedances self patient_data threshold) = Inr b"
  by (cases "dropna_anc_final patient_data")
     (auto simp add: check_grade_4_special_cases_def calculate_exceedances_no_valid Let_def)

lemma grade_early_patient_total:
  "\<exists>res. grade_early_patient self df_rows pid = Inr res \<and> er_patient_id res = pid"
proof -
  let ?pd = "sort_key time_post_inf (filter (\<lambda>row. e_patient_id row = pid) df_rows)"
  obtain b where
    "check_grade_4_special_cases ?pd (calculate_exceedances self ?pd (anc_500_threshold self)) = Inr b"
    using check_grade_4_total by blast
  then show ?thesis by (simp add: grade_early_patient_def Let_def)
qed

lemma grade_early_patient_all_absent:
  assumes "\<And>r. r \<in> set df_rows \<Longrightarrow> e_patient_id r = pid \<Longrightarrow> anc_final r = None"
  shows "grade_early_patient self df_rows pid =
     Inr \<lparr>er_patient_id = pid, er_duration_below_500_max = 0, er_duration_below_100_max = 0,
          er_early_icaht_grade = ''Grade 0'', er_grade_4_special = False,
          exceedances_500 = 0, exceedances_100 = 0\<rparr>"
proof -
  let ?pd = "sort_key time_post_inf (filter (\<lambda>row. e_patient_id row = pid) df_rows)"
  have "dropna_anc_final ?pd = []"
    using assms by (auto simp add: dropna_anc_final_def filter_empty_conv)
  then have ex: "\<And>th. calculate_exceedances self ?pd th = []"
    by (rule calculate_exceedances_no_valid)
  show ?thesis
    by (simp add: grade_early_patient_def Let_def ex check_grade_4_special_cases_def
        max_default_0_def assign_early_grade_def)
qed

lemma last_sorted_Max:
  assumes "sorted (map f xs)" and "xs \<noteq> []"
  shows "f (last xs) = Max (f ` set xs)"
proof -
  have "\<And>y. y \<in> set xs \<Longrightarrow> f y \<le> f (last xs)"
  proof -
    fix y assume "y \<in> set xs"
    then obtain i where i: "i < length xs" "xs ! i = y" by (auto simp add: in_set_conv_nth)
    have "map f xs ! i \<le> map f xs ! (length xs - 1)"
      using assms i by (intro sorted_nth_mono) auto
    then show "f y \<le> f (last xs)"
      using i assms(2) by (simp add: last_conv_nth)
  qed
  then show ?thesis
    using assms(2) by (intro Max_eqI [symmetric]) auto
qed

lemma foldl_merge_step_spec:
  "foldl (merge_step_spec rd) (acc @ [cur]) rest = acc @ join_loop rd cur rest"
proof (induction rest arbitrary: acc cur)
  case Nil
  show ?case by simp
next
  case (Cons nxt rest)
  show ?case
  proof (cases "start_day nxt - end_day cur - 1 < rd")
    case True
    then have "merge_step_spec rd (acc @ [cur]) nxt =
        acc @ [cur\<lparr>end_day := end_day nxt, end_date := end_date nxt,
                   duration := end_day nxt - start_day cur + 1\<rparr>]"
      by (simp add: merge_step_spec_def gap_between_def)
    then show ?thesis using True Cons.IH [of acc] by simp
  next
    case False
    then have "merge_step_spec rd (acc @ [cur]) nxt = (acc @ [cur]) @ [nxt]"
      by (simp add: merge_step_spec_def gap_between_def)
    then show ?thesis using False Cons.IH [of "acc @ [cur]" nxt] by simp
  qed
qed

lemma join_adjacent_exceedances_fold:
  "join_adjacent_exceedances self exs = merge_pass_spec (recovery_days self) exs"
proof (cases exs)
  case Nil
  then show ?thesis by (simp add: join_adjacent_exceedances_def merge_pass_spec_def)
next
  case (Cons e rest)
  have "foldl (merge_step_spec (recovery_days self)) [] (e # rest)
      = foldl (merge_step_spec (recovery_days self)) ([] @ [e]) rest"
    by (simp add: merge_step_spec_def)
  also have "\<dots> = join_loop (recovery_days self) e rest"
    using foldl_merge_step_spec [of "recovery_days self" "[]" e rest] by simp
  finally show ?thesis
    using Cons by (cases rest) (simp_all add: join_adjacent_exceedances_def merge_pass_spec_def)
qed

lemma start_days_join_loop:
  "map start_day (join_loop rd cur rest) =
     start_day cur #
       map (\<lambda>(a, b). start_day b) (filter (\<lambda>(a, b). \<not> gap_between a b < rd) (zip (cur # rest) rest))"
proof (induction rest arbitrary: cur)
  case Nil
  show ?case by simp
next
  case (Cons nxt rest)
  show ?case
  proof (cases "start_day nxt - end_day cur - 1 < rd")
    case True
    let ?cur' = "cur\<lparr>end_day := end_day nxt, end_date := end_date nxt,
                   duration := end_day nxt - start_day cur + 1\<rparr>"
    have eq: "map (\<lambda>(a, b). start_day b)
                (filter (\<lambda>(a, b). \<not> gap_between a b < rd) (zip (?cur' # rest) rest))
            = map (\<lambda>(a, b). start_day b)
                (filter (\<lambda>(a, b). \<not> gap_between a b < rd) (zip (nxt # rest) rest))"
      by (cases rest) (simp_all add: gap_between_def)
    show ?thesis using True Cons.IH [of ?cur'] eq by (simp add: gap_between_def)
  next
    case False
    then show ?thesis using Cons.IH [of nxt] by (simp add: gap_between_def)
  qed
qed

lemma end_days_join_loop:
  "map end_day (join_loop rd cur rest) =
     map (\<lambda>(a, b). end_day a) (filter (\<lambda>(a, b). \<not> gap_between a b < rd) (zip (cur # rest) rest))
     @ [end_day (last (cur # rest))]"
proof (induction rest arbitrary: cur)
  case Nil
  show ?case by simp
next
  case (Cons nxt rest)
  show ?case
  proof (cases "start_day nxt - end_day cur - 1 < rd")
    case True
    let ?cur' = "cur\<lparr>end_day := end_day nxt, end_date := end_date nxt,
                   duration := end_day nxt - start_day cur + 1\<rparr>"
    have eq: "map (\<lambda>(a, b). end_day a)
                (filter (\<lambda>(a, b). \<not> gap_between a b < rd) (zip (?cur' # rest) rest))
              @ [end_day (last (?cur' # rest))]
            = map (\<lambda>(a, b). end_day a)
                (filter (\<lambda>(a, b). \<not> gap_between a b < rd) (zip (nxt # rest) rest))
              @ [end_day (last (nxt # rest))]"
      by (cases rest) (simp_all add: gap_between_def)
    show ?thesis using True Cons.IH [of ?cur'] eq by (simp add: gap_between_def)
  next
    case False
    then show ?thesis using Cons.IH [of nxt] by (simp add: gap_between_def)
  qed
qed

lemma duration_join_loop:
  "duration cur = end_day cur - start_day cur + 1 \<Longrightarrow>
   (\<forall>e \<in> set rest. duration e = end_day e - start_day e + 1) \<Longrightarrow>
   \<forall>e \<in> set (join_loop rd cur rest). duration e = end_day e - start_day e + 1"
proof (induction rest arbitrary: cur)
  case Nil
  then show ?case by simp
next
  case (Cons nxt rest)
  show ?case
  proof (cases "start_day nxt - end_day cur - 1 < rd")
    case True
    let ?cur' = "cur\<lparr>end_day := end_day nxt, end_date := end_date nxt,
                   duration := end_day nxt - start_day cur + 1\<rparr>"
    have "\<forall>e \<in> set (join_loop rd ?cur' rest). duration e = end_day e - start_day e + 1"
      using Cons.prems by (intro Cons.IH) simp_all
    then show ?thesis using True by simp
  next
    case False
    have "\<forall>e \<in> set (join_loop rd nxt rest). duration e = end_day e - start_day e + 1"
      using Cons.prems by (intro Cons.IH) simp_all
    then show ?thesis using False Cons.prems(1) by simp
  qed
qed

text \<open>
  Claim C4. For every list of raw exceedance intervals, of any length, the merge pass of
  the code is the left-to-right fold of the specification, run with the recovery threshold
  of the grader: the next interval is joined into the current one exactly when the gap
  \<open>start(i+1) - end(i) - 1\<close> is strictly less than the threshold. So the merged intervals
  start at the first raw interval and at every raw interval whose gap to its predecessor
  is not below the threshold, and end at the predecessors of these and at the last raw
  interval; a merged interval takes the end day of the interval joined last, and every
  duration is \<open>end - start + 1\<close>. The threshold of the grader is 3. The intervals [0,4]
  and [7,9] (2 good days between them) merge into [0,9] of duration 10; [0,4] and [8,10]
  (3 good days) stay two intervals.
\<close>

theorem join_adjacent_exceedances_gap:
  "join_adjacent_exceedances self exs = merge_pass_spec (recovery_days self) exs
   \<and> (exs \<noteq> [] \<longrightarrow>
        map start_day (join_adjacent_exceedances self exs) =
          start_day (hd exs) #
            map (\<lambda>(a, b). start_day b)
              (filter (\<lambda>(a, b). \<not> gap_between a b < recovery_days self) (zip exs (tl exs)))
      \<and> map end_day (join_adjacent_exceedances self exs) =
          map (\<lambda>(a, b). end_day a)
              (filter (\<lambda>(a, b). \<not> gap_between a b < recovery_days self) (zip exs (tl exs)))
          @ [end_day (last exs)])
   \<and> ((\<forall>e \<in> set exs. duration e = end_day e - start_day e + 1) \<longrightarrow>
        (\<forall>e \<in> set (join_adjacent_exceedances self exs). duration e = end_day e - start_day e + 1))
   \<and> join_adjacent_exceedances self [a, b] =
     (if start_day b - end_day a - 1 < recovery_days self
      then [a\<lparr>end_day := end_day b, end_date := end_date b,
              duration := end_day b - start_day a + 1\<rparr>]
      else [a, b])
   \<and> recovery_days ICahtGrader_init = 3
   \<and> join_adjacent_exceedances ICahtGrader_init
        [\<lparr>start_day = 0, start_date = d, end_day = 4, end_date = d + 4, duration = 5\<rparr>,
         \<lparr>start_day = 7, start_date = d + 7, end_day = 9, end_date = d + 9, duration = 3\<rparr>]
       = [\<lparr>start_day = 0, start_date = d, end_day = 9, end_date = d + 9, duration = 10\<rparr>]
   \<and> join_adjacent_exceedances ICahtGrader_init
        [\<lparr>start_day = 0, start_date = d, end_day = 4, end_date = d + 4, duration = 5\<rparr>,
         \<lparr>start_day = 8, start_date = d + 8, end_day = 10, end_date = d + 10, duration = 3\<rparr>]
       = [\<lparr>start_day = 0, start_date = d, end_day = 4, end_date = d + 4, duration = 5\<rparr>,
          \<lparr>start_day = 8, start_date = d + 8, end_day = 10, end_date = d + 10, duration = 3\<rparr>]"
proof -
  have A: "join_adjacent_exceedances self exs = merge_pass_spec (recovery_days self) exs"
    by (rule join_adjacent_exceedances_fold)
  have B: "exs \<noteq> [] \<longrightarrow>
        map start_day (join_adjacent_exceedances self exs) =
          start_day (hd exs) #
            map (\<lambda>(a, b). start_day b)
              (filter (\<lambda>(a, b). \<not> gap_between a b < recovery_days self) (zip exs (tl exs)))
      \<and> map end_day (join_adjacent_exceedances self exs) =
          map (\<lambda>(a, b). end_day a)
              (filter (\<lambda>(a, b). \<not> gap_between a b < recovery_days self) (zip exs (tl exs)))
          @ [end_day (last exs)]"
  proof (cases exs)
    case Nil
    then show ?thesis by simp
  next
    case (Cons e rest)
    show ?thesis
      using Cons start_days_join_loop [of "recovery_days self" e rest]
        end_days_join_loop [of "recovery_days self" e rest]
      by (cases rest) (simp_all add: join_adjacent_exceedances_def)
  qed
  have C: "(\<forall>e \<in> set exs. duration e = end_day e - start_day e + 1) \<longrightarrow>
        (\<forall>e \<in> set (join_adjacent_exceedances self exs). duration e = end_day e - start_day e + 1)"
  proof (cases exs)
    case Nil
    then show ?thesis by (simp add: join_adjacent_exceedances_def)
  next
    case (Cons e rest)
    show ?thesis
      using Cons duration_join_loop [of e rest "recovery_days self"]
      by (cases rest) (simp_all add: join_adjacent_exceedances_def)
  qed
  have D: "join_adjacent_exceedances self [a, b] =
     (if start_day b - end_day a - 1 < recovery_days self
      then [a\<lparr>end_day := end_day b, end_date := end_date b,
              duration := end_day b - start_day a + 1\<rparr>]
      else [a, b])"
    by (simp add: join_adjacent_exceedances_def Let_def)
  show ?thesis
    using A B C D by (simp add: join_adjacent_exceedances_def ICahtGrader_init_def Let_def)
qed

lemma calculate_exceedances_two_good_days:
  "calculate_exceedances ICahtGrader_init
     (series_of ''P1'' (replicate 5 (Some 400) @ replicate 2 (Some 600) @ replicate 3 (Some 400))) 501
   = [\<lparr>start_day = 0, start_date = 0, end_day = 9, end_date = 9, duration = 10\<rparr>]"
  by code_simp

lemma calculate_exceedances_three_good_days:
  "calculate_exceedances ICahtGrader_init
     (series_of ''P1'' (replicate 5 (Some 400) @ replicate 3 (Some 600) @ replicate 3 (Some 400))) 501
   = [\<lparr>start_day = 0, start_date = 0, end_day = 4, end_date = 4, duration = 5\<rparr>,
      \<lparr>start_day = 8, start_date = 8, end_day = 10, end_date = 10, duration = 3\<rparr>]"
  by code_simp

lemma merge_pass_spec_three_intervals:
  "merge_pass_spec 3
     [\<lparr>start_day = 0, start_date = 0, end_day = 4, end_date = 4, duration = 5\<rparr>,
      \<lparr>start_day = 7, start_date = 7, end_day = 9, end_date = 9, duration = 3\<rparr>,
      \<lparr>start_day = 12, start_date = 12, end_day = 13, end_date = 13, duration = 2\<rparr>]
    = [\<lparr>start_day = 0, start_date = 0, end_day = 13, end_date = 13, duration = 14\<rparr>]
   \<and> merge_pass_spec 3
     [\<lparr>start_day = 0, start_date = 0, end_day = 4, end_date = 4, duration = 5\<rparr>,
      \<lparr>start_day = 7, start_date = 7, end_day = 9, end_date = 9, duration = 3\<rparr>,
      \<lparr>start_day = 13, start_date = 13, end_day = 14, end_date = 14, duration = 2\<rparr>]
    = [\<lparr>start_day = 0, start_date = 0, end_day = 9, end_date = 9, duration = 10\<rparr>,
       \<lparr>start_day = 13, start_date = 13, end_day = 14, end_date = 14, duration = 2\<rparr>]"
  by (simp add: merge_pass_spec_def merge_step_spec_def gap_between_def)

text \<open>
  The claim on lists of three intervals, gaps of 2 and 2 good days and gaps of 2 and 3
  good days, on the two examples of the specification, and on the series of final ANC
  values that give rise to them.
\<close>

theorem join_adjacent_exceedances_gap_witness:
  "join_adjacent_exceedances ICahtGrader_init
     [\<lparr>start_day = 0, start_date = 0, end_day = 4, end_date = 4, duration = 5\<rparr>,
      \<lparr>start_day = 7, start_date = 7, end_day = 9, end_date = 9, duration = 3\<rparr>,
      \<lparr>start_day = 12, start_date = 12, end_day = 13, end_date = 13, duration = 2\<rparr>]
    = [\<lparr>start_day = 0, start_date = 0, end_day = 13, end_date = 13, duration = 14\<rparr>]
   \<and> join_adjacent_exceedances ICahtGrader_init
     [\<lparr>start_day = 0, start_date = 0, end_day = 4, end_date = 4, duration = 5\<rparr>,
      \<lparr>start_day = 7, start_date = 7, end_day = 9, end_date = 9, duration = 3\<rparr>,
      \<lparr>start_day = 13, start_date = 13, end_day = 14, end_date = 14, duration = 2\<rparr>]
    = [\<lparr>start_day = 0, start_date = 0, end_day = 9, end_date = 9, duration = 10\<rparr>,
       \<lparr>start_day = 13, start_date = 13, end_day = 14, end_date = 14, duration = 2\<rparr>]
   \<and> join_adjacent_exceedances ICahtGrader_init
     [\<lparr>start_day = 0, start_date = 0, end_day = 4, end_date = 4, duration = 5\<rparr>,
      \<lparr>start_day = 7, start_date = 7, end_day = 9, end_date = 9, duration = 3\<rparr>]
    = [\<lparr>start_day = 0, start_date = 0, end_day = 9, end_date = 9, duration = 10\<rparr>]
   \<and> join_adjacent_exceedances ICahtGrader_init
     [\<lparr>start_day = 0, start_date = 0, end_day = 4, end_date = 4, duration = 5\<rparr>,
      \<lparr>start_day = 8, start_date = 8, end_day = 10, end_date = 10, duration = 3\<rparr>]
    = [\<lparr>start_day = 0, start_date = 0, end_day = 4, end_date = 4, duration = 5\<rparr>,
       \<lparr>start_day = 8, start_date = 8, end_day = 10, end_date = 10, duration = 3\<rparr>]
   \<and> length (calculate_exceedances ICahtGrader_init
       (series_of ''P1'' (replicate 5 (Some 400) @ replicate 2 (Some 600) @ replicate 3 (Some 400)))
       501) = 1
   \<and> length (calculate_exceedances ICahtGrader_init
       (series_of ''P1'' (replicate 5 (Some 400) @ replicate 3 (Some 600) @ replicate 3 (Some 400)))
       501) = 2"
proof -
  let ?a = "\<lparr>start_day = 0, start_date = 0, end_day = 4, end_date = 4, duration = 5\<rparr>"
  let ?b = "\<lparr>start_day = 7, start_date = 7, end_day = 9, end_date = 9, duration = 3\<rparr>"
  let ?c = "\<lparr>start_day = 12, start_date = 12, end_day = 13, end_date = 13, duration = 2\<rparr>"
  let ?c' = "\<lparr>start_day = 13, start_date = 13, end_day = 14, end_date = 14, duration = 2\<rparr>"
  let ?b' = "\<lparr>start_day = 8, start_date = 8, end_day = 10, end_date = 10, duration = 3\<rparr>"
  note t = join_adjacent_exceedances_gap
    [where self = ICahtGrader_init and exs = "[?a, ?b, ?c]" and a = ?a and b = ?b and d = 0]
  note t' = join_adjacent_exceedances_gap
    [where self = ICahtGrader_init and exs = "[?a, ?b, ?c']" and a = ?a and b = ?b' and d = 0]
  have three: "join_adjacent_exceedances ICahtGrader_init [?a, ?b, ?c] = merge_pass_spec 3 [?a, ?b, ?c]"
    using t by (simp add: ICahtGrader_init_def)
  have three': "join_adjacent_exceedances ICahtGrader_init [?a, ?b, ?c'] = merge_pass_spec 3 [?a, ?b, ?c']"
    using t' by (simp add: ICahtGrader_init_def)
  have two: "join_adjacent_exceedances ICahtGrader_init [?a, ?b]
      = [\<lparr>start_day = 0, start_date = 0, end_day = 9, end_date = 9, duration = 10\<rparr>]"
    using t by simp
  have two': "join_adjacent_exceedances ICahtGrader_init [?a, ?b'] = [?a, ?b']"
    using t by simp
  show ?thesis
    unfolding three three' two two'
    using merge_pass_spec_three_intervals
    by (simp add: calculate_exceedances_two_good_days calculate_exceedances_three_good_days)
qed

text \<open>
  Claim C5. For every patient, grading succeeds, the grade-4 special-case flag is true
  exactly when some merged interval of the 500 threshold starts on or before day 3 and
  ends on the patient's last day with a non-absent final ANC, and whenever the flag is
  true the early grade is 'Grade 4', whatever the duration rules give (otherwise the grade
  is the one of the duration rules).
\<close>

theorem grade_4_special_flag:
  "\<exists>res. grade_early_patient self df_rows pid = Inr res
     \<and> er_grade_4_special res =
         (\<exists>e \<in> set (calculate_exceedances self
                      (sort_key time_post_inf (filter (\<lambda>row. e_patient_id row = pid) df_rows))
                      (anc_500_threshold self)).
            start_day e \<le> 3 \<and>
            end_day e = Max (time_post_inf ` {r \<in> set df_rows. e_patient_id r = pid \<and> anc_final r \<noteq> None}))
     \<and> er_early_icaht_grade res =
         (if er_grade_4_special res then ''Grade 4''
          else assign_early_grade (er_duration_below_500_max res) (er_duration_below_100_max res) False)"
proof -
  let ?pd = "sort_key time_post_inf (filter (\<lambda>row. e_patient_id row = pid) df_rows)"
  let ?exs = "calculate_exceedances self ?pd (anc_500_threshold self)"
  let ?last = "Max (time_post_inf ` {r \<in> set df_rows. e_patient_id r = pid \<and> anc_final r \<noteq> None})"
  have chk: "check_grade_4_special_cases ?pd ?exs = Inr (\<exists>e \<in> set ?exs. start_day e \<le> 3 \<and> end_day e = ?last)"
  proof (cases "?exs = []")
    case True
    then show ?thesis by (simp add: check_grade_4_special_cases_def)
  next
    case False
    then have ne: "dropna_anc_final ?pd \<noteq> []"
      using calculate_exceedances_no_valid by blast
    have "sorted (map time_post_inf (dropna_anc_final ?pd))"
      unfolding dropna_anc_final_def by (intro sorted_filter) simp
    then have "time_post_inf (last (dropna_anc_final ?pd)) = Max (time_post_inf ` set (dropna_anc_final ?pd))"
      using ne by (rule last_sorted_Max)
    moreover have "set (dropna_anc_final ?pd) = {r \<in> set df_rows. e_patient_id r = pid \<and> anc_final r \<noteq> None}"
      by (auto simp add: dropna_anc_final_def)
    ultimately have "time_post_inf (last (dropna_anc_final ?pd)) = ?last" by simp
    then show ?thesis
      using False ne
      by (cases "dropna_anc_final ?pd") (simp_all add: check_grade_4_special_cases_def Let_def list_ex_iff)
  qed
  define flag where "flag = (\<exists>e \<in> set ?exs. start_day e \<le> 3 \<and> end_day e = ?last)"
  have chk': "check_grade_4_special_cases ?pd ?exs = Inr flag"
    using chk by (simp only: flag_def)
  have res: "grade_early_patient self df_rows pid =
     Inr \<lparr>er_patient_id = pid,
          er_duration_below_500_max = max_default_0 (map duration ?exs),
          er_duration_below_100_max =
            max_default_0 (map duration (calculate_exceedances self ?pd (anc_100_threshold self))),
          er_early_icaht_grade =
            assign_early_grade (max_default_0 (map duration ?exs))
              (max_default_0 (map duration (calculate_exceedances self ?pd (anc_100_threshold self))))
              flag,
          er_grade_4_special = flag,
          exceedances_500 = length ?exs,
          exceedances_100 = length (calculate_exceedances self ?pd (anc_100_threshold self))\<rparr>"
    unfolding grade_early_patient_def Let_def chk' by simp
  have prec: "\<And>d5 d1. assign_early_grade d5 d1 flag =
      (if flag then ''Grade 4'' else assign_early_grade d5 d1 False)"
    by (cases flag) (simp_all add: assign_early_grade_def)
  show ?thesis
    unfolding res flag_def [symmetric] using prec by simp
qed

lemma grade_early_patient_day_2_to_30:
  "grade_early_patient ICahtGrader_init
     (series_of ''P1'' (replicate 2 (Some 600) @ replicate 29 (Some 400))) ''P1''
   = Inr \<lparr>er_patient_id = ''P1'', er_duration_below_500_max = 29, er_duration_below_100_max = 0,
          er_early_icaht_grade = ''Grade 4'', er_grade_4_special = True,
          exceedances_500 = 1, exceedances_100 = 0\<rparr>"
  by code_simp

lemma assign_early_grade_29_days: "assign_early_grade 29 0 False = ''Grade 3''"
  by (simp add: assign_early_grade_def)

text \<open>
  The example of the specification: an exceedance from day 2 through day 30, the last
  observed day, is a special case of grade 4, where the duration of 29 days alone gives
  grade 3.
\<close>

theorem grade_4_special_flag_witness:
  "(\<exists>e \<in> set (calculate_exceedances ICahtGrader_init
                 (sort_key time_post_inf
                    (filter (\<lambda>row. e_patient_id row = ''P1'')
                       (series_of ''P1'' (replicate 2 (Some 600) @ replicate 29 (Some 400)))))
                 (anc_500_threshold ICahtGrader_init)).
       start_day e \<le> 3 \<and>
       end_day e = Max (time_post_inf `
          {r \<in> set (series_of ''P1'' (replicate 2 (Some 600) @ replicate 29 (Some 400))).
             e_patient_id r = ''P1'' \<and> anc_final r \<noteq> None}))
   \<and> grade_early_patient ICahtGrader_init
       (series_of ''P1'' (replicate 2 (Some 600) @ replicate 29 (Some 400))) ''P1''
     = Inr \<lparr>er_patient_id = ''P1'', er_duration_below_500_max = 29, er_duration_below_100_max = 0,
            er_early_icaht_grade = ''Grade 4'', er_grade_4_special = True,
            exceedances_500 = 1, exceedances_100 = 0\<rparr>
   \<and> assign_early_grade 29 0 False = ''Grade 3''"
  using grade_4_special_flag [of ICahtGrader_init "series_of ''P1'' (replicate 2 (Some 600) @ replicate 29 (Some 400))" "''P1''"]
  unfolding grade_early_patient_day_2_to_30
  by (simp add: assign_early_grade_29_days)

text \<open>
  Claim C10. For every patient of the early series whose final ANC is absent on every
  day, early grading completes without raising and gives exactly one result for that
  patient: maximum durations below 500 and below 100 equal to 0, no special case, no
  exceedance and early grade 'Grade 0'.
\<close>

theorem early_grade_all_absent:
  assumes cols: "has_columns df_early"
    and pid: "pid \<in> e_patient_id ` set (rows df_early)"
    and absent: "\<forall>r \<in> set (rows df_early). e_patient_id r = pid \<longrightarrow> anc_final r = None"
  shows "\<exists>results. grade_early_icaht self df_early = Inr (DataFrame results)
     \<and> filter (\<lambda>res. er_patient_id res = pid) results =
         [\<lparr>er_patient_id = pid, er_duration_below_500_max = 0, er_duration_below_100_max = 0,
           er_early_icaht_grade = ''Grade 0'', er_grade_4_special = False,
           exceedances_500 = 0, exceedances_100 = 0\<rparr>]"
proof -
  let ?rows = "rows df_early"
  let ?ids = "unique (map e_patient_id ?rows)"
  obtain g where g: "\<And>x. grade_early_patient self ?rows x = Inr (g x) \<and> er_patient_id (g x) = x"
    using grade_early_patient_total by metis
  have fe: "for_each (grade_early_patient self ?rows) ?ids = Inr (map g ?ids)"
    by (rule for_each_map) (simp add: g)
  have res: "grade_early_icaht self df_early = Inr (DataFrame (map g ?ids))"
    using cols by (simp add: grade_early_icaht_def getitem_def fe)
  have "filter (\<lambda>res. er_patient_id res = pid) (map g ?ids) = map g (filter (\<lambda>x. x = pid) ?ids)"
    by (simp add: filter_map comp_def g)
  also have "\<dots> = map g [pid]"
    using pid by (simp add: filter_eq_distinct distinct_unique set_unique)
  also have "\<dots> = [\<lparr>er_patient_id = pid, er_duration_below_500_max = 0, er_duration_below_100_max = 0,
           er_early_icaht_grade = ''Grade 0'', er_grade_4_special = False,
           exceedances_500 = 0, exceedances_100 = 0\<rparr>]"
    using grade_early_patient_all_absent [of "?rows" pid self] absent g [of pid] by simp
  finally show ?thesis using res by blast
qed

theorem early_grade_all_absent_witness:
  "\<exists>results. grade_early_icaht ICahtGrader_init
       (Frame True (series_of ''P1'' [None, None, None] @ series_of ''P2'' [Some 400, None])) = Inr (DataFrame results)
     \<and> filter (\<lambda>res. er_patient_id res = ''P1'') results =
         [\<lparr>er_patient_id = ''P1'', er_duration_below_500_max = 0, er_duration_below_100_max = 0,
           er_early_icaht_grade = ''Grade 0'', er_grade_4_special = False,
           exceedances_500 = 0, exceedances_100 = 0\<rparr>]"
proof -
  let ?df = "Frame True (series_of ''P1'' [None, None, None] @ series_of ''P2'' [Some 400, None])"
  have h1: "has_columns ?df" by simp
  have h2: "''P1'' \<in> e_patient_id ` set (rows ?df)" by (simp add: series_of_def)
  have h3: "\<forall>r \<in> set (rows ?df). e_patient_id r = ''P1'' \<longrightarrow> anc_final r = None"
    by (simp add: series_of_def)
  show ?thesis by (rule early_grade_all_absent [OF h1 h2 h3])
qed

section \<open>The late grader\<close>

lemma in_range_of_int: "in_range (of_int k) a b = (a \<le> k \<and> k < b)"
  by (simp add: in_range_def)

text \<open>
  Claim C6 says that the late grade is the band of anc_1 for every value of anc_2. The code
  asks for anc_2 to be absent or at most 1500 in the bands of grade 1, 2 and 3: with
  anc_1 = 1200 and anc_2 = 1600 the grade is 'Grade 0', not 'Grade 1'.
\<close>

theorem assign_late_grade_anc_2_counterexample:
  "assign_late_grade (Some 1200) (Some 1600) = ''Grade 0''"
  by (simp add: assign_late_grade_def in_range_def)

text \<open>
  Claim C6, amended. For a late-window patient whose lowest value anc_1 is a whole number:
  anc_1 \<open>\<le>\<close> 100 gives grade 4 and anc_1 > 1500 gives grade 0, for every anc_2; anc_1 in
  (1000, 1500], (500, 1000], (100, 500] gives grade 1, 2, 3 when anc_2 is absent or at
  most 1500, and grade 0 when anc_2 is above 1500. In particular anc_1 = 90 gives grade 4,
  anc_1 = 1800 gives grade 0, and anc_1 = 1200 with anc_2 absent gives grade 1.
\<close>

theorem assign_late_grade_bands:
  "assign_late_grade (Some (of_int k)) a2 =
     (if k \<le> 100 then ''Grade 4''
      else if 1500 < k then ''Grade 0''
      else if (case a2 of None \<Rightarrow> False | Some v \<Rightarrow> 1500 < v) then ''Grade 0''
      else if 1000 < k then ''Grade 1''
      else if 500 < k then ''Grade 2''
      else ''Grade 3'')"
  by (cases a2) (auto simp add: assign_late_grade_def in_range_of_int Let_def)

theorem assign_late_grade_bands_witness:
  "assign_late_grade (Some 90) (Some 95) = ''Grade 4'' \<and>
   assign_late_grade (Some 1800) (Some 2000) = ''Grade 0'' \<and>
   assign_late_grade (Some 1200) None = ''Grade 1'' \<and>
   assign_late_grade (Some 1200) (Some 1400) = ''Grade 1''"
  using assign_late_grade_bands [of 90 "Some 95"] assign_late_grade_bands [of 1800 "Some 2000"]
    assign_late_grade_bands [of 1200 None] assign_late_grade_bands [of 1200 "Some 1400"]
  by simp

section \<open>The interpolation\<close>

lemma window_all_nan_iff:
  "window_all_nan L ys x = (\<forall>k < length ys. x \<le> k + L \<and> k \<le> x + L \<longrightarrow> ys ! k = None)"
proof
  assume w: "window_all_nan L ys x"
  show "\<forall>k < length ys. x \<le> k + L \<and> k \<le> x + L \<longrightarrow> ys ! k = None"
  proof (intro allI impI)
    fix k assume k: "k < length ys" "x \<le> k + L \<and> k \<le> x + L"
    let ?m = "x - L" and ?n = "x + L + 1 - (x - L)"
    have i: "k - ?m < length (take ?n (drop ?m ys))" using k by auto
    have "?m \<le> length ys" using k by auto
    then have "take ?n (drop ?m ys) ! (k - ?m) = ys ! k" using k by auto
    then show "ys ! k = None"
      using w i unfolding window_all_nan_def list_all_length by metis
  qed
next
  assume a: "\<forall>k < length ys. x \<le> k + L \<and> k \<le> x + L \<longrightarrow> ys ! k = None"
  show "window_all_nan L ys x"
    unfolding window_all_nan_def list_all_length
  proof (intro allI impI)
    fix i assume i: "i < length (take (x + L + 1 - (x - L)) (drop (x - L) ys))"
    then have "x - L \<le> length ys" by auto
    with i have "take (x + L + 1 - (x - L)) (drop (x - L) ys) ! i = ys ! ((x - L) + i)" by simp
    moreover have "(x - L) + i < length ys" "x \<le> (x - L) + i + L" "(x - L) + i \<le> x + L"
      using i by auto
    ultimately show "take (x + L + 1 - (x - L)) (drop (x - L) ys) ! i = None"
      using a by simp
  qed
qed

lemma series_interpolate_nth:
  assumes "1 \<le> limit"
  shows "\<exists>zs. series_interpolate limit ys = Inr zs \<and> length zs = length ys \<and>
    (\<forall>x < length ys. zs ! x =
       (case ys ! x of
          Some v \<Rightarrow> Some v
        | None \<Rightarrow> if window_all_nan (nat limit) ys x then None
                  else Some (np_interp (valid_points ys) x)))"
proof (cases "list_all (\<lambda>y. y = None) ys")
  case True
  then have "\<forall>x < length ys. ys ! x = None" by (simp add: list_all_length)
  then have "\<forall>x < length ys. window_all_nan (nat limit) ys x \<and> ys ! x = None"
    by (simp add: window_all_nan_iff)
  then show ?thesis using True assms by (simp add: series_interpolate_def)
next
  case False
  show ?thesis
  proof (cases "list_all (\<lambda>y. y \<noteq> None) ys")
    case True
    then have "\<forall>x < length ys. ys ! x \<noteq> None" by (simp add: list_all_length)
    then show ?thesis using True False assms by (auto simp add: series_interpolate_def)
  next
    case F2: False
    show ?thesis using False F2 assms
      by (simp add: series_interpolate_def nth_enumerate_eq)
  qed
qed

lemma map_filter_append: "List.map_filter f (xs @ ys) = List.map_filter f xs @ List.map_filter f ys"
  by (simp add: List.map_filter_def)

lemma valid_points_all_nan:
  "(\<forall>y \<in> set ys. y = None) \<Longrightarrow>
     List.map_filter (\<lambda>(i, y). map_option (Pair i) y) (enumerate n ys) = []"
  by (induction ys arbitrary: n) auto

lemma valid_points_mem:
  "p \<in> set (valid_points ys) \<Longrightarrow> fst p < length ys \<and> ys ! fst p = Some (snd p)"
  by (auto simp add: valid_points_def List.map_filter_def in_set_enumerate_eq)

lemma valid_points_split:
  assumes "i < length ys" and "ys ! i = Some v"
  shows "valid_points ys =
     List.map_filter (\<lambda>(i, y). map_option (Pair i) y) (enumerate 0 (take i ys))
     @ (i, v) # List.map_filter (\<lambda>(i, y). map_option (Pair i) y) (enumerate (Suc i) (drop (Suc i) ys))"
proof -
  have "ys = take i ys @ ys ! i # drop (Suc i) ys"
    using assms(1) by (simp add: id_take_nth_drop)
  then have "enumerate 0 ys =
      enumerate 0 (take i ys) @ (i, ys ! i) # enumerate (Suc i) (drop (Suc i) ys)"
    using assms(1) by (metis enumerate_append_eq enumerate_simps(2) length_take min.absorb2
        less_imp_le_nat add_0)
  then show ?thesis
    using assms(2) by (simp add: valid_points_def map_filter_append)
qed

lemma np_interp_before_first:
  "x \<le> x0 \<Longrightarrow> np_interp ((x0, y0) # ps) x = y0"
  by (cases ps) auto

lemma np_interp_after_last:
  "ps \<noteq> [] \<Longrightarrow> (\<forall>p \<in> set ps. fst p < x) \<Longrightarrow> np_interp ps x = snd (last ps)"
  by (induction ps x rule: np_interp.induct) auto

lemma np_interp_leading:
  assumes "j < length ys" "ys ! j = Some v" "\<forall>k < j. ys ! k = None" "x \<le> j"
  shows "np_interp (valid_points ys) x = v"
proof -
  have "\<forall>y \<in> set (take j ys). y = None"
    using assms(1,3) by (auto simp add: in_set_conv_nth)
  then have "valid_points ys = (j, v) #
      List.map_filter (\<lambda>(i, y). map_option (Pair i) y) (enumerate (Suc j) (drop (Suc j) ys))"
    using valid_points_split [OF assms(1,2)] by (simp add: valid_points_all_nan)
  then show ?thesis using assms(4) by (simp add: np_interp_before_first)
qed

lemma np_interp_trailing:
  assumes "i < length ys" "ys ! i = Some v" "\<forall>k < length ys. i < k \<longrightarrow> ys ! k = None" "i < x"
  shows "np_interp (valid_points ys) x = v"
proof -
  have "\<forall>y \<in> set (drop (Suc i) ys). y = None"
    using assms(1,3) by (auto simp add: in_set_conv_nth)
  then have vp: "valid_points ys =
      List.map_filter (\<lambda>(i, y). map_option (Pair i) y) (enumerate 0 (take i ys)) @ [(i, v)]"
    using valid_points_split [OF assms(1,2)] by (simp add: valid_points_all_nan)
  have "\<forall>p \<in> set (valid_points ys). fst p < x"
  proof
    fix p assume p: "p \<in> set (valid_points ys)"
    then have "fst p < length ys" "ys ! fst p \<noteq> None" using valid_points_mem by auto
    then have "fst p \<le> i" using assms(3) by (meson not_le_imp_less)
    then show "fst p < x" using assms(4) by simp
  qed
  moreover have "valid_points ys \<noteq> []" using vp by simp
  ultimately have "np_interp (valid_points ys) x = snd (last (valid_points ys))"
    by (intro np_interp_after_last) auto
  then show ?thesis using vp by simp
qed

lemma interpolate_patient_nth:
  assumes "1 \<le> max_gap"
  shows "\<exists>out. interpolate_patient max_gap df pid = Inr out
    \<and> length out = length (filter (\<lambda>r. e_patient_id r = pid) df)
    \<and> map e_anc out = map e_anc (sort_key time_post_inf (filter (\<lambda>r. e_patient_id r = pid) df))
    \<and> map time_post_inf out = map time_post_inf (sort_key time_post_inf (filter (\<lambda>r. e_patient_id r = pid) df))
    \<and> (\<forall>x < length out.
          anc_interpolated (out ! x) =
            (case e_anc (out ! x) of
               Some v \<Rightarrow> Some (round_to_10 v)
             | None \<Rightarrow> if window_all_nan (nat max_gap) (map e_anc out) x then None
                       else Some (round_to_10 (np_interp (valid_points (map e_anc out)) x)))
        \<and> anc_final (out ! x) =
            (case e_anc (out ! x) of
               Some v \<Rightarrow> Some v
             | None \<Rightarrow> map_option of_int (anc_interpolated (out ! x))))"
proof -
  let ?pd = "sort_key time_post_inf (filter (\<lambda>r. e_patient_id r = pid) df)"
  let ?ys = "map e_anc ?pd"
  obtain zs where zs: "series_interpolate max_gap ?ys = Inr zs" "length zs = length ?ys"
    and nth: "\<forall>x < length ?ys. zs ! x =
       (case ?ys ! x of
          Some v \<Rightarrow> Some v
        | None \<Rightarrow> if window_all_nan (nat max_gap) ?ys x then None
                  else Some (np_interp (valid_points ?ys) x))"
    using series_interpolate_nth [OF assms, of ?ys] by blast
  define f where "f = (\<lambda>(r::day_row, v::rat option).
                 (let rounded = map_option round_to_10 v in
                  \<lparr>e_patient_id = e_patient_id r, time_post_inf = time_post_inf r,
                   e_cart_date = e_cart_date r, e_date = e_date r, e_anc = e_anc r,
                   e_last_fu_date = e_last_fu_date r,
                   anc_interpolated = rounded,
                   anc_final = (case e_anc r of
                                  Some a \<Rightarrow> Some a
                                | None \<Rightarrow> map_option of_int rounded)\<rparr>))"
  let ?out = "map f (zip ?pd zs)"
  have out: "interpolate_patient max_gap df pid = Inr ?out"
    by (simp add: interpolate_patient_def Let_def zs(1) f_def)
  have len: "length ?out = length ?pd" using zs(2) by simp
  have ea: "map e_anc ?out = ?ys"
    using zs(2) by (intro nth_equalityI) (simp_all add: f_def Let_def)
  have tp: "map time_post_inf ?out = map time_post_inf ?pd"
    using zs(2) by (intro nth_equalityI) (simp_all add: f_def Let_def)
  have "\<forall>x < length ?out.
          anc_interpolated (?out ! x) =
            (case e_anc (?out ! x) of
               Some v \<Rightarrow> Some (round_to_10 v)
             | None \<Rightarrow> if window_all_nan (nat max_gap) (map e_anc ?out) x then None
                       else Some (round_to_10 (np_interp (valid_points (map e_anc ?out)) x)))
        \<and> anc_final (?out ! x) =
            (case e_anc (?out ! x) of
               Some v \<Rightarrow> Some v
             | None \<Rightarrow> map_option of_int (anc_interpolated (?out ! x)))"
  proof (intro allI impI)
    fix x assume x: "x < length ?out"
    then have x': "x < length ?pd" "x < length zs" using zs(2) by simp_all
    have ox: "?out ! x = f (?pd ! x, zs ! x)" using x' by simp
    have zx: "zs ! x = (case e_anc (?pd ! x) of
          Some v \<Rightarrow> Some v
        | None \<Rightarrow> if window_all_nan (nat max_gap) ?ys x then None
                  else Some (np_interp (valid_points ?ys) x))"
      using nth x' by simp
    show "anc_interpolated (?out ! x) =
            (case e_anc (?out ! x) of
               Some v \<Rightarrow> Some (round_to_10 v)
             | None \<Rightarrow> if window_all_nan (nat max_gap) (map e_anc ?out) x then None
                       else Some (round_to_10 (np_interp (valid_points (map e_anc ?out)) x)))
        \<and> anc_final (?out ! x) =
            (case e_anc (?out ! x) of
               Some v \<Rightarrow> Some v
             | None \<Rightarrow> map_option of_int (anc_interpolated (?out ! x)))"
      unfolding ea unfolding ox zx
      by (simp add: f_def Let_def split: option.splits)
  qed
  then show ?thesis using out len ea tp by (intro exI [of _ ?out]) simp
qed

text \<open>
  Claim C7 says that a run of absent days longer than \<open>max_gap_days\<close> between two known
  values stays absent as a whole. The limit of pandas counts from each known value: with
  the default limit 7, known values 400 on day 0 and 620 on day 11 and the ten days between
  them absent, every one of the ten days gets an interpolated value (and so do the seven
  days after day 11).
\<close>

theorem interpolation_fills_gap_of_ten_days:
  "final_anc_values (prepare_early_data
      [observation ''P1'' 0 (Some 400) None, observation ''P1'' 11 (Some 620) None] (\<lambda>k. None))
   = Inr ([Some 400, Some 420, Some 440, Some 460, Some 480, Some 500, Some 520, Some 540,
           Some 560, Some 580, Some 600, Some 620]
          @ replicate 7 (Some 620) @ replicate 12 None)"
  by code_simp

text \<open>
  Claim C7, amended. With a limit \<open>max_gap_days\<close> of at least 1, the interpolation of a
  patient's series succeeds and keeps the raw values; a day with an absent raw value keeps
  an absent final ANC exactly when no day within \<open>max_gap_days\<close> positions before or after
  it has a known raw value. So in a run of absent days between two known values, exactly
  the days more than \<open>max_gap_days\<close> away from both known values stay absent. (Positions
  are counted in the patient's series ordered by day; in the completed series the position
  is the day offset.)
\<close>

theorem interpolation_gap_limit:
  assumes "1 \<le> max_gap"
  shows "\<exists>out. interpolate_patient max_gap df pid = Inr out
    \<and> map e_anc out = map e_anc (sort_key time_post_inf (filter (\<lambda>r. e_patient_id r = pid) df))
    \<and> (\<forall>x < length out. e_anc (out ! x) = None \<longrightarrow>
          (anc_final (out ! x) = None) =
            (\<forall>k < length out. x \<le> k + nat max_gap \<and> k \<le> x + nat max_gap \<longrightarrow> e_anc (out ! k) = None))
    \<and> (\<forall>i j x. i < x \<and> x < j \<and> j < length out \<and> e_anc (out ! i) \<noteq> None \<and> e_anc (out ! j) \<noteq> None
          \<and> (\<forall>k. i < k \<and> k < j \<longrightarrow> e_anc (out ! k) = None) \<longrightarrow>
          (anc_final (out ! x) = None) = (i + nat max_gap < x \<and> x + nat max_gap < j))"
proof -
  obtain out where out: "interpolate_patient max_gap df pid = Inr out"
    and ea: "map e_anc out = map e_anc (sort_key time_post_inf (filter (\<lambda>r. e_patient_id r = pid) df))"
    and nth: "\<forall>x < length out.
          anc_interpolated (out ! x) =
            (case e_anc (out ! x) of
               Some v \<Rightarrow> Some (round_to_10 v)
             | None \<Rightarrow> if window_all_nan (nat max_gap) (map e_anc out) x then None
                       else Some (round_to_10 (np_interp (valid_points (map e_anc out)) x)))
        \<and> anc_final (out ! x) =
            (case e_anc (out ! x) of
               Some v \<Rightarrow> Some v
             | None \<Rightarrow> map_option of_int (anc_interpolated (out ! x)))"
    using interpolate_patient_nth [OF assms, of df pid] by blast
  have win: "\<And>x. x < length out \<Longrightarrow> e_anc (out ! x) = None \<Longrightarrow>
      (anc_final (out ! x) = None) =
        (\<forall>k < length out. x \<le> k + nat max_gap \<and> k \<le> x + nat max_gap \<longrightarrow> e_anc (out ! k) = None)"
    using nth by (simp add: window_all_nan_iff)
  have gap: "\<And>i j x. i < x \<Longrightarrow> x < j \<Longrightarrow> j < length out \<Longrightarrow> e_anc (out ! i) \<noteq> None \<Longrightarrow>
      e_anc (out ! j) \<noteq> None \<Longrightarrow> (\<forall>k. i < k \<and> k < j \<longrightarrow> e_anc (out ! k) = None) \<Longrightarrow>
      (anc_final (out ! x) = None) = (i + nat max_gap < x \<and> x + nat max_gap < j)"
  proof -
    fix i j x
    assume h: "i < x" "x < j" "j < length out" "e_anc (out ! i) \<noteq> None" "e_anc (out ! j) \<noteq> None"
      "\<forall>k. i < k \<and> k < j \<longrightarrow> e_anc (out ! k) = None"
    let ?L = "nat max_gap"
    have x: "x < length out" "e_anc (out ! x) = None" using h by auto
    show "(anc_final (out ! x) = None) = (i + ?L < x \<and> x + ?L < j)"
    proof
      assume "anc_final (out ! x) = None"
      then have w: "\<forall>k < length out. x \<le> k + ?L \<and> k \<le> x + ?L \<longrightarrow> e_anc (out ! k) = None"
        using win [OF x] by simp
      have "\<not> x \<le> i + ?L" using w h by (metis less_imp_le_nat less_trans trans_le_add1)
      moreover have "\<not> j \<le> x + ?L" using w h by (metis less_imp_le_nat trans_le_add1)
      ultimately show "i + ?L < x \<and> x + ?L < j" by simp
    next
      assume a: "i + ?L < x \<and> x + ?L < j"
      have "\<forall>k < length out. x \<le> k + ?L \<and> k \<le> x + ?L \<longrightarrow> e_anc (out ! k) = None"
      proof (intro allI impI)
        fix k assume "k < length out" "x \<le> k + ?L \<and> k \<le> x + ?L"
        then have "i < k \<and> k < j" using a by linarith
        then show "e_anc (out ! k) = None" using h(6) by blast
      qed
      then show "anc_final (out ! x) = None" using win [OF x] by simp
    qed
  qed
  show ?thesis using out ea win gap by (intro exI [of _ out]) blast
qed

lemma interpolate_patient_gap_of_16_days:
  "(case interpolate_patient 7 (day_series_of ''P1'' (Some 400 # replicate 16 None @ [Some 740])) ''P1'' of
      Inl err \<Rightarrow> Inl err | Inr out \<Rightarrow> Inr (map anc_final out))
   = Inr ([Some 400, Some 420, Some 440, Some 460, Some 480, Some 500, Some 520, Some 540,
           None, None,
           Some 600, Some 620, Some 640, Some 660, Some 680, Some 700, Some 720, Some 740])"
  by code_simp

theorem interpolation_gap_limit_witness:
  "(\<exists>out. interpolate_patient 7
        (day_series_of ''P1'' (Some 400 # replicate 16 None @ [Some 740])) ''P1'' = Inr out
    \<and> map e_anc out = map e_anc (sort_key time_post_inf (filter (\<lambda>r. e_patient_id r = ''P1'')
           (day_series_of ''P1'' (Some 400 # replicate 16 None @ [Some 740]))))
    \<and> (\<forall>x < length out. e_anc (out ! x) = None \<longrightarrow>
          (anc_final (out ! x) = None) =
            (\<forall>k < length out. x \<le> k + nat 7 \<and> k \<le> x + nat 7 \<longrightarrow> e_anc (out ! k) = None))
    \<and> (\<forall>i j x. i < x \<and> x < j \<and> j < length out \<and> e_anc (out ! i) \<noteq> None \<and> e_anc (out ! j) \<noteq> None
          \<and> (\<forall>k. i < k \<and> k < j \<longrightarrow> e_anc (out ! k) = None) \<longrightarrow>
          (anc_final (out ! x) = None) = (i + nat 7 < x \<and> x + nat 7 < j)))
   \<and> (case interpolate_patient 7 (day_series_of ''P1'' (Some 400 # replicate 16 None @ [Some 740])) ''P1'' of
      Inl err \<Rightarrow> Inl err | Inr out \<Rightarrow> Inr (map anc_final out))
   = Inr ([Some 400, Some 420, Some 440, Some 460, Some 480, Some 500, Some 520, Some 540,
           None, None,
           Some 600, Some 620, Some 640, Some 660, Some 680, Some 700, Some 720, Some 740])"
proof (intro conjI)
  have h: "(1::int) \<le> 7" by simp
  show "\<exists>out. interpolate_patient 7
        (day_series_of ''P1'' (Some 400 # replicate 16 None @ [Some 740])) ''P1'' = Inr out
    \<and> map e_anc out = map e_anc (sort_key time_post_inf (filter (\<lambda>r. e_patient_id r = ''P1'')
           (day_series_of ''P1'' (Some 400 # replicate 16 None @ [Some 740]))))
    \<and> (\<forall>x < length out. e_anc (out ! x) = None \<longrightarrow>
          (anc_final (out ! x) = None) =
            (\<forall>k < length out. x \<le> k + nat 7 \<and> k \<le> x + nat 7 \<longrightarrow> e_anc (out ! k) = None))
    \<and> (\<forall>i j x. i < x \<and> x < j \<and> j < length out \<and> e_anc (out ! i) \<noteq> None \<and> e_anc (out ! j) \<noteq> None
          \<and> (\<forall>k. i < k \<and> k < j \<longrightarrow> e_anc (out ! k) = None) \<longrightarrow>
          (anc_final (out ! x) = None) = (i + nat 7 < x \<and> x + nat 7 < j))"
    by (rule interpolation_gap_limit [OF h])
  show "(case interpolate_patient 7 (day_series_of ''P1'' (Some 400 # replicate 16 None @ [Some 740])) ''P1'' of
      Inl err \<Rightarrow> Inl err | Inr out \<Rightarrow> Inr (map anc_final out))
   = Inr ([Some 400, Some 420, Some 440, Some 460, Some 480, Some 500, Some 520, Some 540,
           None, None,
           Some 600, Some 620, Some 640, Some 660, Some 680, Some 700, Some 720, Some 740])"
    by (rule interpolate_patient_gap_of_16_days)
qed

text \<open>
  Claim C8 says that no day before the first or after the last known raw value gets an
  interpolated value. With \<open>limit_direction='both'\<close> the days next to the known values are
  filled: with known values 400 on day 2 and 460 on day 3 in a window of days 0 to 5, the
  days 0 and 1 get 400 and the days 4 and 5 get 460.
\<close>

theorem interpolation_fills_edges:
  "final_anc_values (prepare_early_data
      [observation ''P1'' 2 (Some 400) None, observation ''P1'' 3 (Some 460) None]
      (\<lambda>k. if k = ''early_days'' then Some 5 else None))
   = Inr [Some 400, Some 400, Some 400, Some 460, Some 460, Some 460]"
  by code_simp

text \<open>
  Claim C8, amended. With a limit \<open>max_gap_days\<close> of at least 1, every day more than
  \<open>max_gap_days\<close> positions before the first day with a known raw value, and every day
  more than \<open>max_gap_days\<close> positions after the last one, keeps an absent interpolated and
  final ANC; the days up to \<open>max_gap_days\<close> before the first known value get that value,
  and the days up to \<open>max_gap_days\<close> after the last known value get that value, rounded
  to the nearest ten.
\<close>

theorem interpolation_edge_limit:
  assumes "1 \<le> max_gap"
  shows "\<exists>out. interpolate_patient max_gap df pid = Inr out
    \<and> map e_anc out = map e_anc (sort_key time_post_inf (filter (\<lambda>r. e_patient_id r = pid) df))
    \<and> (\<forall>j x. x < j \<and> j < length out \<and> e_anc (out ! j) \<noteq> None \<and> (\<forall>k < j. e_anc (out ! k) = None) \<longrightarrow>
          anc_interpolated (out ! x) =
            (if x + nat max_gap < j then None else map_option round_to_10 (e_anc (out ! j)))
          \<and> anc_final (out ! x) = map_option of_int (anc_interpolated (out ! x)))
    \<and> (\<forall>i x. i < x \<and> x < length out \<and> e_anc (out ! i) \<noteq> None
          \<and> (\<forall>k < length out. i < k \<longrightarrow> e_anc (out ! k) = None) \<longrightarrow>
          anc_interpolated (out ! x) =
            (if i + nat max_gap < x then None else map_option round_to_10 (e_anc (out ! i)))
          \<and> anc_final (out ! x) = map_option of_int (anc_interpolated (out ! x)))"
proof -
  let ?L = "nat max_gap"
  obtain out where out: "interpolate_patient max_gap df pid = Inr out"
    and ea: "map e_anc out = map e_anc (sort_key time_post_inf (filter (\<lambda>r. e_patient_id r = pid) df))"
    and nth: "\<forall>x < length out.
          anc_interpolated (out ! x) =
            (case e_anc (out ! x) of
               Some v \<Rightarrow> Some (round_to_10 v)
             | None \<Rightarrow> if window_all_nan ?L (map e_anc out) x then None
                       else Some (round_to_10 (np_interp (valid_points (map e_anc out)) x)))
        \<and> anc_final (out ! x) =
            (case e_anc (out ! x) of
               Some v \<Rightarrow> Some v
             | None \<Rightarrow> map_option of_int (anc_interpolated (out ! x)))"
    using interpolate_patient_nth [OF assms, of df pid] by blast
  have lead: "\<And>j x. x < j \<Longrightarrow> j < length out \<Longrightarrow> e_anc (out ! j) \<noteq> None \<Longrightarrow>
      (\<forall>k < j. e_anc (out ! k) = None) \<Longrightarrow>
      anc_interpolated (out ! x) =
        (if x + ?L < j then None else map_option round_to_10 (e_anc (out ! j)))
      \<and> anc_final (out ! x) = map_option of_int (anc_interpolated (out ! x))"
  proof -
    fix j x
    assume h: "x < j" "j < length out" "e_anc (out ! j) \<noteq> None" "\<forall>k < j. e_anc (out ! k) = None"
    obtain v where v: "e_anc (out ! j) = Some v" using h(3) by auto
    have x: "x < length out" "e_anc (out ! x) = None" using h by auto
    have w: "window_all_nan ?L (map e_anc out) x = (x + ?L < j)"
    proof
      assume "window_all_nan ?L (map e_anc out) x"
      then have "\<not> j \<le> x + ?L"
        using h v by (auto simp add: window_all_nan_iff)
      then show "x + ?L < j" by simp
    next
      assume "x + ?L < j"
      then show "window_all_nan ?L (map e_anc out) x"
        using h(4) by (auto simp add: window_all_nan_iff)
    qed
    have "np_interp (valid_points (map e_anc out)) x = v"
      using h v by (intro np_interp_leading [of j]) auto
    then show "anc_interpolated (out ! x) =
        (if x + ?L < j then None else map_option round_to_10 (e_anc (out ! j)))
      \<and> anc_final (out ! x) = map_option of_int (anc_interpolated (out ! x))"
      using nth x w v by simp
  qed
  have trail: "\<And>i x. i < x \<Longrightarrow> x < length out \<Longrightarrow> e_anc (out ! i) \<noteq> None \<Longrightarrow>
      (\<forall>k < length out. i < k \<longrightarrow> e_anc (out ! k) = None) \<Longrightarrow>
      anc_interpolated (out ! x) =
        (if i + ?L < x then None else map_option round_to_10 (e_anc (out ! i)))
      \<and> anc_final (out ! x) = map_option of_int (anc_interpolated (out ! x))"
  proof -
    fix i x
    assume h: "i < x" "x < length out" "e_anc (out ! i) \<noteq> None"
      "\<forall>k < length out. i < k \<longrightarrow> e_anc (out ! k) = None"
    obtain v where v: "e_anc (out ! i) = Some v" using h(3) by auto
    have x: "e_anc (out ! x) = None" using h by auto
    have w: "window_all_nan ?L (map e_anc out) x = (i + ?L < x)"
    proof
      assume "window_all_nan ?L (map e_anc out) x"
      then have "\<not> x \<le> i + ?L"
        using h v by (auto simp add: window_all_nan_iff)
      then show "i + ?L < x" by simp
    next
      assume "i + ?L < x"
      then show "window_all_nan ?L (map e_anc out) x"
        using h(4) by (auto simp add: window_all_nan_iff)
    qed
    have "np_interp (valid_points (map e_anc out)) x = v"
      using h v by (intro np_interp_trailing [of i]) auto
    then show "anc_interpolated (out ! x) =
        (if i + ?L < x then None else map_option round_to_10 (e_anc (out ! i)))
      \<and> anc_final (out ! x) = map_option of_int (anc_interpolated (out ! x))"
      using nth h(2) x w v by simp
  qed
  show ?thesis using out ea lead trail by (intro exI [of _ out]) blast
qed

lemma interpolate_patient_edges_limit_2:
  "(case interpolate_patient 2 (day_series_of ''P1'' (replicate 4 None @ [Some 400, Some 460] @ replicate 4 None)) ''P1'' of
      Inl err \<Rightarrow> Inl err | Inr out \<Rightarrow> Inr (map anc_final out))
   = Inr [None, None, Some 400, Some 400, Some 400, Some 460, Some 460, Some 460, None, None]"
  by code_simp

theorem interpolation_edge_limit_witness:
  "(\<exists>out. interpolate_patient 2
        (day_series_of ''P1'' (replicate 4 None @ [Some 400, Some 460] @ replicate 4 None)) ''P1'' = Inr out
    \<and> map e_anc out = map e_anc (sort_key time_post_inf (filter (\<lambda>r. e_patient_id r = ''P1'')
           (day_series_of ''P1'' (replicate 4 None @ [Some 400, Some 460] @ replicate 4 None))))
    \<and> (\<forall>j x. x < j \<and> j < length out \<and> e_anc (out ! j) \<noteq> None \<and> (\<forall>k < j. e_anc (out ! k) = None) \<longrightarrow>
          anc_interpolated (out ! x) =
            (if x + nat 2 < j then None else map_option round_to_10 (e_anc (out ! j)))
          \<and> anc_final (out ! x) = map_option of_int (anc_interpolated (out ! x)))
    \<and> (\<forall>i x. i < x \<and> x < length out \<and> e_anc (out ! i) \<noteq> None
          \<and> (\<forall>k < length out. i < k \<longrightarrow> e_anc (out ! k) = None) \<longrightarrow>
          anc_interpolated (out ! x) =
            (if i + nat 2 < x then None else map_option round_to_10 (e_anc (out ! i)))
          \<and> anc_final (out ! x) = map_option of_int (anc_interpolated (out ! x))))
   \<and> (case interpolate_patient 2 (day_series_of ''P1'' (replicate 4 None @ [Some 400, Some 460] @ replicate 4 None)) ''P1'' of
      Inl err \<Rightarrow> Inl err | Inr out \<Rightarrow> Inr (map anc_final out))
   = Inr [None, None, Some 400, Some 400, Some 400, Some 460, Some 460, Some 460, None, None]"
proof (intro conjI)
  have h: "(1::int) \<le> 2" by simp
  show "\<exists>out. interpolate_patient 2
        (day_series_of ''P1'' (replicate 4 None @ [Some 400, Some 460] @ replicate 4 None)) ''P1'' = Inr out
    \<and> map e_anc out = map e_anc (sort_key time_post_inf (filter (\<lambda>r. e_patient_id r = ''P1'')
           (day_series_of ''P1'' (replicate 4 None @ [Some 400, Some 460] @ replicate 4 None))))
    \<and> (\<forall>j x. x < j \<and> j < length out \<and> e_anc (out ! j) \<noteq> None \<and> (\<forall>k < j. e_anc (out ! k) = None) \<longrightarrow>
          anc_interpolated (out ! x) =
            (if x + nat 2 < j then None else map_option round_to_10 (e_anc (out ! j)))
          \<and> anc_final (out ! x) = map_option of_int (anc_interpolated (out ! x)))
    \<and> (\<forall>i x. i < x \<and> x < length out \<and> e_anc (out ! i) \<noteq> None
          \<and> (\<forall>k < length out. i < k \<longrightarrow> e_anc (out ! k) = None) \<longrightarrow>
          anc_interpolated (out ! x) =
            (if i + nat 2 < x then None else map_option round_to_10 (e_anc (out ! i)))
          \<and> anc_final (out ! x) = map_option of_int (anc_interpolated (out ! x)))"
    by (rule interpolation_edge_limit [OF h])
  show "(case interpolate_patient 2 (day_series_of ''P1'' (replicate 4 None @ [Some 400, Some 460] @ replicate 4 None)) ''P1'' of
      Inl err \<Rightarrow> Inl err | Inr out \<Rightarrow> Inr (map anc_final out))
   = Inr [None, None, Some 400, Some 400, Some 400, Some 460, Some 460, Some 460, None, None]"
    by (rule interpolate_patient_edges_limit_2)
qed

section \<open>The settings\<close>































section \<open>Further facts\<close>

text \<open>
  The completed series of a patient has one row for every day from 0 to the follow-up
  horizon, in day order: the position of a row in the series is its day offset.
\<close>

lemma complete_patient_series:
  assumes "complete_patient max_days df pid = Inr rs"
  shows "\<exists>follow_up_days. follow_up_days \<le> max_days \<and> map time_post_inf rs = [0..follow_up_days]"
proof (cases "filter (\<lambda>r. e_patient_id r = pid) df")
  case Nil
  then show ?thesis using assms by (simp add: complete_patient_def)
next
  case (Cons p ps)
  define fud where "fud = (case e_last_fu_date p of None \<Rightarrow> max_days | Some f \<Rightarrow> min max_days (f - e_cart_date p))"
  define row_of where "row_of = (\<lambda>day. case filter (\<lambda>r. time_post_inf r = day) (p # ps) of
                       day_data # _ \<Rightarrow> day_data
                     | [] \<Rightarrow>
                         \<lparr>e_patient_id = pid, time_post_inf = day, e_cart_date = e_cart_date p,
                          e_date = e_cart_date p + day, e_anc = None, e_last_fu_date = e_last_fu_date p\<rparr>)"
  have fud: "fud \<le> max_days" by (simp add: fud_def split: option.splits)
  have rs: "rs = map row_of [0..fud]"
    using assms Cons by (simp add: complete_patient_def Let_def fud_def row_of_def)
  have "\<And>day. time_post_inf (row_of day) = day"
  proof -
    fix day
    show "time_post_inf (row_of day) = day"
    proof (cases "filter (\<lambda>r. time_post_inf r = day) (p # ps)")
      case Nil
      then show ?thesis by (simp add: row_of_def)
    next
      case (Cons d ds)
      then have "d \<in> set (filter (\<lambda>r. time_post_inf r = day) (p # ps))"
        by (simp only: list.set_intros(1))
      then have "time_post_inf d = day" by (simp only: set_filter mem_Collect_eq)
      then show ?thesis using Cons by (simp add: row_of_def)
    qed
  qed
  then have "map time_post_inf rs = [0..fud]" using rs by (simp add: comp_def)
  then show ?thesis using fud by blast
qed

end
